theory Spec2Isabelle
  imports Complex_Main "HOL-Library.Word"
begin

section \<open>The synthetic ALS data generator (make_synthetic_als_data.cpp)\<close>

text \<open>
  A shallow embedding of \<^verbatim>\<open>main\<close> of
  \<^verbatim>\<open>src/toolkits/matrix_factorization/make_synthetic_als_data.cpp\<close>.

  \<^item> \<^verbatim>\<open>size_t\<close> is a 64-bit word (an LP64 platform, with the limits of its
    standard library): \<open>+\<close> wraps, \<open>mod\<close> is the unsigned remainder. The literal \<^verbatim>\<open>2654435761\<close> is a \<^verbatim>\<open>long\<close>; added to a
    \<^verbatim>\<open>size_t\<close> it is converted to \<^verbatim>\<open>size_t\<close>.
  \<^item> \<^verbatim>\<open>double\<close> is an abstract type \<open>'r\<close>; every floating-point operation the
    program calls (\<^verbatim>\<open>std::pow\<close>, Eigen's \<^verbatim>\<open>dot\<close>, the stream formatting of a
    double) is a field of the record \<open>lib\<close>, so that nothing proved here depends on
    how doubles round.
  \<^item> \<^verbatim>\<open>graphlab::random::generator\<close> and \<^verbatim>\<open>graphlab::tostr\<close> are not part of the
    source file: the generator's state is an abstract type \<open>'g\<close>, and its draws and
    \<^verbatim>\<open>tostr\<close> are fields of \<open>lib\<close>.
  \<^item> The file system and the heap are an environment: what
    \<^verbatim>\<open>boost::filesystem::create_directory\<close> does, for each path whether a
    \<^verbatim>\<open>std::ofstream\<close> opened on it is \<^verbatim>\<open>good()\<close>, and for each request the
    program makes to the heap whether it is served. Nothing in \<^verbatim>\<open>main\<close> catches an
    exception, so a library call that throws ends the run.
  \<^item> The run is modelled from the point where the command line has been parsed: the
    parsed options are the record \<open>config\<close>. What the program prints on the standard
    output is not modelled.
\<close>

subsection \<open>Data\<close>

type_synonym size_t = "64 word"

record 'r config =
  output_folder :: string
  nfiles :: size_t
  D :: size_t
  nusers :: size_t
  nmovies :: size_t
  nvalidation :: size_t
  noise :: 'r
  stdev :: 'r
  alpha :: 'r

text \<open>The operations of the libraries the program calls.\<close>

record ('r, 'g) lib =
  gen_seed :: "size_t \<Rightarrow> 'g \<Rightarrow> 'g"
  gen_gaussian :: "'r \<Rightarrow> 'r \<Rightarrow> 'g \<Rightarrow> 'r \<times> 'g"
  gen_uniform :: "'r \<Rightarrow> 'r \<Rightarrow> 'g \<Rightarrow> 'r \<times> 'g"
  d_of_int :: "int \<Rightarrow> 'r"
  d_of_size :: "size_t \<Rightarrow> 'r"
  d_neg :: "'r \<Rightarrow> 'r"
  d_pow :: "'r \<Rightarrow> 'r \<Rightarrow> 'r"
  d_add :: "'r \<Rightarrow> 'r \<Rightarrow> 'r"
  d_div :: "'r \<Rightarrow> 'r \<Rightarrow> 'r"
  d_le :: "'r \<Rightarrow> 'r \<Rightarrow> bool"
  d_dot :: "'r list \<Rightarrow> 'r list \<Rightarrow> 'r"
  d_show :: "'r \<Rightarrow> string"
  tostr :: "size_t \<Rightarrow> string"

text \<open>
  The two vectors of streams, \<^verbatim>\<open>train_files\<close> and \<^verbatim>\<open>validation_files\<close>, and the
  two vectors of factors, \<^verbatim>\<open>user_factors\<close> and \<^verbatim>\<open>movie_factors\<close>.
\<close>

datatype sink = Train | Validation

datatype table = Users | Movies

text \<open>
  The requests that \<^verbatim>\<open>main\<close> makes to the heap, each made at most once in a run:
  the storage of a vector of streams (lines 84 and 85), a stream object
  \<^verbatim>\<open>new std::ofstream\<close> (lines 89 and 97), the storage of a vector of factors
  (lines 108 and 109), the storage of one factor \<^verbatim>\<open>factor.resize(D)\<close> (lines 115 and
  123), and the storage of \<^verbatim>\<open>prob\<close> (line 131). What the libraries allocate for
  their own use (file names, stream buffers, log messages) is not modelled.
\<close>

datatype request =
  Streams sink | Stream sink size_t | Factors table | Factor table size_t | Prob

text \<open>
  The environment of a run.

  \<^item> \<open>create_directory\<close> is the one-argument
    \<^verbatim>\<open>boost::filesystem::create_directory\<close> of line 78: \<open>Some True\<close> when it created
    the directory, \<open>Some False\<close> when it created none because the path is a directory
    already, and \<open>None\<close> when the directory cannot be created, in which case this
    overload throws \<^verbatim>\<open>filesystem_error\<close>.
  \<^item> \<open>ofstream_good\<close> says of a path whether a \<^verbatim>\<open>std::ofstream\<close> opened on it is
    \<^verbatim>\<open>good()\<close>.
  \<^item> \<open>allocates\<close> says of a request to the heap whether it is served. Since a run
    makes each request at most once, this covers a heap that runs out at any point
    of the run.
\<close>

record environment =
  create_directory :: "string \<Rightarrow> bool option"
  ofstream_good :: "string \<Rightarrow> bool"
  allocates :: "request \<Rightarrow> bool"

text \<open>
  How a run can end before the end of \<^verbatim>\<open>main\<close>: \<^verbatim>\<open>create_directory\<close> throws
  \<^verbatim>\<open>filesystem_error\<close>, the constructor of a vector throws \<^verbatim>\<open>std::length_error\<close>,
  the heap does not serve a request (\<^verbatim>\<open>std::bad_alloc\<close>),
  \<^verbatim>\<open>ASSERT_GT(nusers, nvalidation)\<close> fails, or a remainder by zero is computed
  (\<^verbatim>\<open>user_id % nfiles\<close> with no shard).
\<close>

datatype error = FilesystemError | LengthError | BadAlloc | AssertionFailure | DivideByZero

text \<open>
  What \<^verbatim>\<open>logstream(LOG_ERROR)\<close> receives: the message and the path printed after it.
\<close>

datatype log_entry = ErrorCreatingDirectory string | ErrorCreatingFile string

text \<open>
  One execution of
  \<^verbatim>\<open>*(files[file_id]) << user_id << '\t' << (movie_id + nusers) << '\t' << rating << '\n'\<close>:
  the vector of streams written to, the index into it, and the three values.
\<close>

record 'r edge =
  e_sink :: sink
  e_file :: size_t
  e_user :: size_t
  e_item :: size_t
  e_rating :: 'r

text \<open>The writes of one iteration of the loop over movies, with the degree it sampled.\<close>

record 'r block =
  b_movie :: size_t
  b_degree :: size_t
  b_edges :: "'r edge list"

text \<open>
  What a run leaves behind: how it ended (\<open>None\<close> is the normal end of \<^verbatim>\<open>main\<close>),
  the error log, the paths of the files its streams created, the two factor tables
  and the writes it made, in order.
\<close>

record 'r outcome =
  status :: "error option"
  logged :: "log_entry list"
  created :: "string list"
  user_table :: "'r list list"
  movie_table :: "'r list list"
  blocks :: "'r block list"

text \<open>
  All writes of a run, in the order in which they were made.
\<close>

definition edges :: "'r outcome \<Rightarrow> 'r edge list" where
  "edges out = concat (map b_edges (blocks out))"

subsection \<open>Counting loops\<close>

text \<open>
  \<^verbatim>\<open>for(size_t i = lo; i < n; ++i) body\<close> over a state; the body returns the new
  state and, when it crashes, the error, which ends the loop there.
\<close>

function for_loop ::
  "size_t \<Rightarrow> size_t \<Rightarrow> (size_t \<Rightarrow> 's \<Rightarrow> 's \<times> error option) \<Rightarrow> 's \<Rightarrow> 's \<times> error option"
where
  "for_loop i n body s =
     (if i < n then
        (case body i s of
           (s', Some e) \<Rightarrow> (s', Some e)
         | (s', None) \<Rightarrow> for_loop (i + 1) n body s')
      else (s, None))"
  by pat_completeness auto
termination
proof (relation "measure (\<lambda>(i, n, body, s). unat n - unat i)")
  show "wf (measure (\<lambda>(i, n, body, s). unat n - unat i))"
    by simp
next
  fix i n :: size_t and body :: "size_t \<Rightarrow> 's \<Rightarrow> 's \<times> error option"
    and s s' :: 's and r :: "'s \<times> error option" and e :: "error option"
  assume "i < n"
  then have lt: "unat i < unat n"
    by (simp add: word_less_nat_alt)
  have "unat n < 2 ^ 64"
    using unsigned_less [of n] by simp
  with lt have "unat i + 1 < 2 ^ 64"
    by linarith
  then have "unat (i + 1) = unat i + unat (1 :: size_t)"
    by (simp add: unat_add_lem [THEN iffD1])
  with lt show "((i + 1, n, body, s'), (i, n, body, s))
      \<in> measure (\<lambda>(i, n, body, s). unat n - unat i)"
    by simp
qed

declare for_loop.simps [simp del]

subsection \<open>Allocation and formatting\<close>

text \<open>
  The largest number of elements of \<open>elem_bytes\<close> bytes that a \<^verbatim>\<open>std::vector\<close> can
  hold, \<^verbatim>\<open>max_size()\<close>: \<^verbatim>\<open>PTRDIFF_MAX / sizeof(T)\<close>. A \<^verbatim>\<open>vec_type\<close> (a pointer
  and a length) takes 16 bytes, a \<^verbatim>\<open>double\<close> and a pointer 8.
\<close>

definition max_size :: "size_t \<Rightarrow> size_t" where
  "max_size elem_bytes = 0x7FFFFFFFFFFFFFFF div elem_bytes"

text \<open>
  \<^verbatim>\<open>std::vector<T> v(n)\<close>: the constructor throws \<^verbatim>\<open>std::length_error\<close> when \<open>n\<close>
  exceeds \<^verbatim>\<open>max_size()\<close>; otherwise it asks the heap for the storage of \<open>n\<close>
  elements (none for \<open>n = 0\<close>) and \<^verbatim>\<open>std::bad_alloc\<close> is thrown when the heap does
  not serve the request. The result is the exception that ends the run, if any.
\<close>

definition new_vector :: "environment \<Rightarrow> request \<Rightarrow> size_t \<Rightarrow> size_t \<Rightarrow> error option" where
  "new_vector env r elem_bytes n =
     (if max_size elem_bytes < n then Some LengthError
      else if n = 0 \<or> allocates env r then None
      else Some BadAlloc)"

text \<open>
  \<^verbatim>\<open>factor.resize(n)\<close> on an empty \<^verbatim>\<open>vec_type\<close>: the storage of \<open>n\<close> doubles is
  asked of the heap (none for \<open>n = 0\<close>); \<^verbatim>\<open>std::bad_alloc\<close> is thrown when that is
  more than an object can take or when the heap does not serve the request.
\<close>

definition resize :: "environment \<Rightarrow> request \<Rightarrow> size_t \<Rightarrow> error option" where
  "resize env r n =
     (if n = 0 then None
      else if max_size 8 < n then Some BadAlloc
      else if allocates env r then None
      else Some BadAlloc)"

text \<open>
  The decimal digits of a number.
\<close>

fun decimal :: "nat \<Rightarrow> string" where
  "decimal n =
     (if n < 10 then [''0123456789'' ! n]
      else decimal (n div 10) @ [''0123456789'' ! (n mod 10)])"

declare decimal.simps [simp del]

text \<open>\<^verbatim>\<open>stream << i\<close> for a \<^verbatim>\<open>size_t\<close>: its decimal digits.\<close>

definition show_size_t :: "size_t \<Rightarrow> string" where
  "show_size_t i = decimal (unat i)"

text \<open>The path of shard \<open>i\<close> of the training or of the validation files.\<close>

definition shard_name :: "('r, 'g) lib \<Rightarrow> 'r config \<Rightarrow> sink \<Rightarrow> size_t \<Rightarrow> string" where
  "shard_name lib cfg k i =
     (case k of
        Train \<Rightarrow> output_folder cfg @ ''/graph_'' @ tostr lib i @ ''.tsv''
      | Validation \<Rightarrow> output_folder cfg @ ''/graph_'' @ tostr lib i @ ''.tsv.validate'')"

text \<open>
  The line \<^verbatim>\<open>user_id << '\t' << item_id << '\t' << rating << '\n'\<close>.
\<close>

definition format_edge :: "('r, 'g) lib \<Rightarrow> 'r edge \<Rightarrow> string" where
  "format_edge lib e =
     show_size_t (e_user e) @ [CHR 0x09] @ show_size_t (e_item e) @ [CHR 0x09]
       @ d_show lib (e_rating e) @ [CHR 0x0A]"

subsection \<open>Opening the shard files (lines 86 to 102)\<close>

text \<open>
  One iteration of the loop that opens the files. \<^verbatim>\<open>new std::ofstream\<close> asks the
  heap for the stream object. A stream that is good has created its file (empty);
  one that is not is logged, and the run goes on. The second log entry prints
  \<^verbatim>\<open>train_fname\<close>, as line 100 does.
\<close>

definition open_shard ::
  "('r, 'g) lib \<Rightarrow> environment \<Rightarrow> 'r config \<Rightarrow> size_t \<Rightarrow> string list \<times> log_entry list
     \<Rightarrow> (string list \<times> log_entry list) \<times> error option"
where
  "open_shard lib env cfg i = (\<lambda>(cr, lg).
     let train_fname = output_folder cfg @ ''/graph_'' @ tostr lib i @ ''.tsv''
     in if allocates env (Stream Train i) then
          let (cr, lg) =
                (if ofstream_good env train_fname then (cr @ [train_fname], lg)
                 else (cr, lg @ [ErrorCreatingFile train_fname]));
              validation_fname =
                output_folder cfg @ ''/graph_'' @ tostr lib i @ ''.tsv.validate''
          in if allocates env (Stream Validation i) then
               let (cr, lg) =
                     (if ofstream_good env validation_fname then (cr @ [validation_fname], lg)
                      else (cr, lg @ [ErrorCreatingFile train_fname]))
               in ((cr, lg), None)
             else ((cr, lg), Some BadAlloc)
        else ((cr, lg), Some BadAlloc))"

text \<open>
  Lines 86 to 102: the streams are opened in index order. The result is the paths of
  the files created, the log, and the exception that ended the loop, if any.
\<close>

definition open_files ::
  "('r, 'g) lib \<Rightarrow> environment \<Rightarrow> 'r config \<Rightarrow> log_entry list
     \<Rightarrow> (string list \<times> log_entry list) \<times> error option"
where
  "open_files lib env cfg lg = for_loop 0 (nfiles cfg) (open_shard lib env cfg) ([], lg)"

subsection \<open>Latent factors (lines 113 to 127)\<close>

text \<open>
  One iteration of \<^verbatim>\<open>for(size_t d = 0; d < D; ++d) factor(d) = gen.gaussian(0, stdev)\<close>.
  The resized vector holds no defined values before the loop assigns them in index
  order, so the loop is modelled as appending the draws.
\<close>

definition draw_component ::
  "('r, 'g) lib \<Rightarrow> 'r config \<Rightarrow> size_t \<Rightarrow> 'r list \<times> 'g \<Rightarrow> ('r list \<times> 'g) \<times> error option"
where
  "draw_component lib cfg d = (\<lambda>(factor, gen).
     let (x, gen) = gen_gaussian lib (d_of_int lib 0) (stdev cfg) gen
     in ((factor @ [x], gen), None))"

text \<open>
  One iteration of \<^verbatim>\<open>foreach(vec_type& factor, factors)\<close>: the \<open>i\<close>-th factor of the
  table is resized to \<open>D\<close> components, which are then drawn.
\<close>

definition draw_factor ::
  "('r, 'g) lib \<Rightarrow> environment \<Rightarrow> 'r config \<Rightarrow> table \<Rightarrow> size_t \<Rightarrow> 'r list list \<times> 'g
     \<Rightarrow> ('r list list \<times> 'g) \<times> error option"
where
  "draw_factor lib env cfg tbl i = (\<lambda>(factors, gen).
     case resize env (Factor tbl i) (D cfg) of
       Some e \<Rightarrow> ((factors, gen), Some e)
     | None \<Rightarrow>
         let (factor, gen) = fst (for_loop 0 (D cfg) (draw_component lib cfg) ([], gen))
         in ((factors[unat i := factor], gen), None))"

text \<open>
  Lines 113 to 119, and 121 to 127: the \<open>n\<close> factors of a table, drawn in index
  order.
\<close>

definition latent_factors ::
  "('r, 'g) lib \<Rightarrow> environment \<Rightarrow> 'r config \<Rightarrow> table \<Rightarrow> size_t \<Rightarrow> 'g
     \<Rightarrow> ('r list list \<times> 'g) \<times> error option"
where
  "latent_factors lib env cfg tbl n gen =
     for_loop 0 n (draw_factor lib env cfg tbl) (replicate (unat n) [], gen)"

subsection \<open>The degree distribution (lines 131 to 134, 137)\<close>

text \<open>
  \<^verbatim>\<open>prob[i] = std::pow(double(i+1), -alpha)\<close>.
\<close>

definition power_law ::
  "('r, 'g) lib \<Rightarrow> 'r config \<Rightarrow> size_t \<Rightarrow> 'r list \<Rightarrow> 'r list \<times> error option"
where
  "power_law lib cfg i prob =
     (prob[unat i := d_pow lib (d_of_size lib (i + 1)) (d_neg lib (alpha cfg))], None)"

text \<open>
  Modelled from the spec: the prefix sums of \<^verbatim>\<open>graphlab::random::pdf2cdf\<close>, which is
  not in the source file.
\<close>

fun prefix_sums :: "('r, 'g) lib \<Rightarrow> 'r \<Rightarrow> 'r list \<Rightarrow> 'r list" where
  "prefix_sums lib acc [] = []"
| "prefix_sums lib acc (p # ps) = d_add lib acc p # prefix_sums lib (d_add lib acc p) ps"

text \<open>
  Modelled from the spec: \<^verbatim>\<open>graphlab::random::pdf2cdf\<close> is not in the source file.
  The weights are normalised to a probability mass function (each divided by their
  sum) and converted to a cumulative distribution (prefix sums).
\<close>

definition pdf2cdf :: "('r, 'g) lib \<Rightarrow> 'r list \<Rightarrow> 'r list" where
  "pdf2cdf lib prob =
     (let Z = foldl (d_add lib) (d_of_int lib 0) prob
      in prefix_sums lib (d_of_int lib 0) (map (\<lambda>p. d_div lib p Z) prob))"

text \<open>Lines 131 to 134: the power-law weights over \<open>nusers - nvalidation\<close> ranks, as a CDF.\<close>

definition degree_cdf :: "('r, 'g) lib \<Rightarrow> 'r config \<Rightarrow> 'r list" where
  "degree_cdf lib cfg =
     (let prob = fst (for_loop 0 (nusers cfg - nvalidation cfg) (power_law lib cfg)
                        (replicate (unat (nusers cfg - nvalidation cfg)) (d_of_int lib 0)))
      in pdf2cdf lib prob)"

text \<open>
  Modelled from the spec: the search of \<^verbatim>\<open>generator::multinomial_cdf\<close>, which is not
  in the source file: the first index whose value satisfies \<open>P\<close> and, when no value
  does, the last index (the spec, section 9: the search is clamped to the last valid
  index).
\<close>

fun locate :: "('r \<Rightarrow> bool) \<Rightarrow> 'r list \<Rightarrow> nat" where
  "locate P [] = 0"
| "locate P [c] = 0"
| "locate P (c # c' # cs) = (if P c then 0 else Suc (locate P (c' # cs)))"

text \<open>
  Modelled from the spec: \<^verbatim>\<open>generator::multinomial_cdf\<close> is not in the source file.
  It draws a uniform value in [0,1) from the shared generator and locates the first
  index whose cumulative value is at least the draw.
\<close>

definition multinomial_cdf :: "('r, 'g) lib \<Rightarrow> 'r list \<Rightarrow> 'g \<Rightarrow> size_t \<times> 'g" where
  "multinomial_cdf lib cdf gen =
     (let (u, gen) = gen_uniform lib (d_of_int lib 0) (d_of_int lib 1) gen
      in (of_nat (locate (d_le lib u) cdf), gen))"

subsection \<open>The edges of one movie (lines 135 to 155)\<close>

text \<open>
  One iteration of the training loop (lines 139 to 144): the cursor advances, the
  shard is chosen, the rating is computed and the line is written. The remainder by
  \<open>nfiles\<close> is undefined for \<open>nfiles = 0\<close>; the run is taken to end there.
\<close>

definition train_edge ::
  "('r, 'g) lib \<Rightarrow> 'r config \<Rightarrow> 'r list list \<Rightarrow> 'r list list \<Rightarrow> size_t \<Rightarrow> size_t
     \<Rightarrow> size_t \<times> 'r edge list \<Rightarrow> (size_t \<times> 'r edge list) \<times> error option"
where
  "train_edge lib cfg user_factors movie_factors movie_id i = (\<lambda>(user_id, out).
     if nusers cfg = 0 then ((user_id, out), Some DivideByZero)
     else
       let user_id = (user_id + 2654435761) mod nusers cfg
       in if nfiles cfg = 0 then ((user_id, out), Some DivideByZero)
          else
            let file_id = user_id mod nfiles cfg;
                rating = d_dot lib (user_factors ! unat user_id) (movie_factors ! unat movie_id)
            in ((user_id,
                 out @ [\<lparr>e_sink = Train, e_file = file_id, e_user = user_id,
                          e_item = movie_id + nusers cfg, e_rating = rating\<rparr>]),
                None))"

text \<open>
  One iteration of the validation loop (lines 148 to 153).
\<close>

definition validation_edge ::
  "('r, 'g) lib \<Rightarrow> 'r config \<Rightarrow> 'r list list \<Rightarrow> 'r list list \<Rightarrow> size_t \<Rightarrow> size_t
     \<Rightarrow> size_t \<times> 'r edge list \<Rightarrow> (size_t \<times> 'r edge list) \<times> error option"
where
  "validation_edge lib cfg user_factors movie_factors movie_id i = (\<lambda>(user_id, out).
     if nusers cfg = 0 then ((user_id, out), Some DivideByZero)
     else
       let user_id = (user_id + 2654435761) mod nusers cfg
       in if nfiles cfg = 0 then ((user_id, out), Some DivideByZero)
          else
            let file_id = user_id mod nfiles cfg;
                rating = d_dot lib (user_factors ! unat user_id) (movie_factors ! unat movie_id)
            in ((user_id,
                 out @ [\<lparr>e_sink = Validation, e_file = file_id, e_user = user_id,
                          e_item = movie_id + nusers cfg, e_rating = rating\<rparr>]),
                None))"

text \<open>
  One iteration of the loop over movies: the degree is sampled, then the training
  loop runs \<open>out_degree\<close> times and the validation loop \<open>nvalidation\<close> times.
\<close>

definition movie_step ::
  "('r, 'g) lib \<Rightarrow> 'r config \<Rightarrow> 'r list list \<Rightarrow> 'r list list \<Rightarrow> 'r list \<Rightarrow> size_t
     \<Rightarrow> 'g \<times> size_t \<times> 'r block list \<Rightarrow> ('g \<times> size_t \<times> 'r block list) \<times> error option"
where
  "movie_step lib cfg user_factors movie_factors prob movie_id = (\<lambda>(gen, user_id, bs).
     let (idx, gen) = multinomial_cdf lib prob gen;
         out_degree = idx + 1
     in (case for_loop 0 out_degree
                (train_edge lib cfg user_factors movie_factors movie_id) (user_id, []) of
           ((user_id, out), Some e) \<Rightarrow>
             ((gen, user_id,
               bs @ [\<lparr>b_movie = movie_id, b_degree = out_degree, b_edges = out\<rparr>]),
              Some e)
         | ((user_id, out), None) \<Rightarrow>
             (case for_loop 0 (nvalidation cfg)
                     (validation_edge lib cfg user_factors movie_factors movie_id)
                     (user_id, out) of
                ((user_id, out), err) \<Rightarrow>
                  ((gen, user_id,
                    bs @ [\<lparr>b_movie = movie_id, b_degree = out_degree, b_edges = out\<rparr>]),
                   err))))"

text \<open>Lines 135 to 155: the loop over movies; the cursor \<open>user_id\<close> starts at 0.\<close>

definition generate ::
  "('r, 'g) lib \<Rightarrow> 'r config \<Rightarrow> 'r list list \<Rightarrow> 'r list list \<Rightarrow> 'r list \<Rightarrow> 'g
     \<Rightarrow> ('g \<times> size_t \<times> 'r block list) \<times> error option"
where
  "generate lib cfg user_factors movie_factors prob gen =
     for_loop 0 (nmovies cfg) (movie_step lib cfg user_factors movie_factors prob) (gen, 0, [])"

subsection \<open>The program\<close>

text \<open>
  The outcome of a run that ends with the exception \<open>e\<close> before the loop over
  movies. A factor table that the run did not finish drawing is left empty here.
\<close>

definition stopped ::
  "error \<Rightarrow> string list \<Rightarrow> log_entry list \<Rightarrow> 'r list list \<Rightarrow> 'r list list \<Rightarrow> 'r outcome"
where
  "stopped e cr lg user_factors movie_factors =
     \<lparr>status = Some e, logged = lg, created = cr, user_table = user_factors,
      movie_table = movie_factors, blocks = []\<rparr>"

text \<open>
  Lines 107 to 155, run after the files \<open>cr\<close> have been created and \<open>lg\<close> logged:
  the two vectors of factors are constructed, the generator is seeded, the factors
  are drawn, \<^verbatim>\<open>ASSERT_GT(nusers, nvalidation)\<close> is checked, the degree distribution is
  built and the loop over movies runs. \<open>gen0\<close> is the state of the generator as its
  constructor leaves it, before \<^verbatim>\<open>gen.seed(31413)\<close>.
\<close>

definition synthesize ::
  "('r, 'g) lib \<Rightarrow> environment \<Rightarrow> 'r config \<Rightarrow> 'g \<Rightarrow> string list \<Rightarrow> log_entry list
     \<Rightarrow> 'r outcome"
where
  "synthesize lib env cfg gen0 cr lg =
     (case new_vector env (Factors Users) 16 (nusers cfg) of
        Some e \<Rightarrow> stopped e cr lg [] []
      | None \<Rightarrow>
     (case new_vector env (Factors Movies) 16 (nmovies cfg) of
        Some e \<Rightarrow> stopped e cr lg [] []
      | None \<Rightarrow>
     (case latent_factors lib env cfg Users (nusers cfg) (gen_seed lib 31413 gen0) of
        ((user_factors, gen), Some e) \<Rightarrow> stopped e cr lg [] []
      | ((user_factors, gen), None) \<Rightarrow>
     (case latent_factors lib env cfg Movies (nmovies cfg) gen of
        ((movie_factors, gen), Some e) \<Rightarrow> stopped e cr lg user_factors []
      | ((movie_factors, gen), None) \<Rightarrow>
          if nusers cfg > nvalidation cfg then
            (case new_vector env Prob 8 (nusers cfg - nvalidation cfg) of
               Some e \<Rightarrow> stopped e cr lg user_factors movie_factors
             | None \<Rightarrow>
                 let prob = degree_cdf lib cfg;
                     ((gen, user_id, bs), err) =
                       generate lib cfg user_factors movie_factors prob gen
                 in \<lparr>status = err, logged = lg, created = cr, user_table = user_factors,
                      movie_table = movie_factors, blocks = bs\<rparr>)
          else stopped AssertionFailure cr lg user_factors movie_factors))))"

text \<open>
  The program, from line 76: the directory is created (an exception of
  \<^verbatim>\<open>create_directory\<close> ends the run; its result \<^verbatim>\<open>false\<close> is logged), the two
  vectors of streams are constructed, the files are opened, and the data are
  synthesized.
\<close>

definition main :: "('r, 'g) lib \<Rightarrow> environment \<Rightarrow> 'r config \<Rightarrow> 'g \<Rightarrow> 'r outcome" where
  "main lib env cfg gen0 =
     (case create_directory env (output_folder cfg) of
        None \<Rightarrow> stopped FilesystemError [] [] [] []
      | Some made \<Rightarrow>
          let lg = (if made then [] else [ErrorCreatingDirectory (output_folder cfg)])
          in (case new_vector env (Streams Train) 8 (nfiles cfg) of
                Some e \<Rightarrow> stopped e [] lg [] []
              | None \<Rightarrow>
             (case new_vector env (Streams Validation) 8 (nfiles cfg) of
                Some e \<Rightarrow> stopped e [] lg [] []
              | None \<Rightarrow>
             (case open_files lib env cfg lg of
                ((cr, lg), Some e) \<Rightarrow> stopped e cr lg [] []
              | ((cr, lg), None) \<Rightarrow> synthesize lib env cfg gen0 cr lg))))"

text \<open>
  The bytes that the run writes to a shard file: the formatted lines of the writes
  made to that stream, in order. A stream that is not good drops what is written
  to it. The bytes are in the file once the stream is closed (lines 156 to 161,
  which end every run that reaches them).
\<close>

definition shard_bytes ::
  "('r, 'g) lib \<Rightarrow> environment \<Rightarrow> 'r config \<Rightarrow> 'r outcome \<Rightarrow> sink \<Rightarrow> size_t \<Rightarrow> string"
where
  "shard_bytes lib env cfg out k i =
     (if ofstream_good env (shard_name lib cfg k i)
      then concat (map (format_edge lib)
             (filter (\<lambda>e. e_sink e = k \<and> e_file e = i) (edges out)))
      else [])"

section \<open>Notions used to state the properties\<close>

text \<open>
  The definitions of this section are not part of the program: they state what its
  loops compute, and the lemmas below relate them to the program.
\<close>

subsection \<open>Evaluating a loop step by step\<close>

text \<open>
  The rest of a loop after one iteration has returned: the loop from the next index,
  or the crash. With it a loop on concrete bounds unfolds one iteration at a time
  (lemma \<open>for_loop_eval\<close>).
\<close>

fun resume ::
  "size_t \<Rightarrow> size_t \<Rightarrow> (size_t \<Rightarrow> 's \<Rightarrow> 's \<times> error option) \<Rightarrow> 's \<times> error option
     \<Rightarrow> 's \<times> error option"
where
  "resume i n body (s, None) = for_loop i n body s"
| "resume i n body (s, Some e) = (s, Some e)"

subsection \<open>What the loops compute\<close>

text \<open>
  The writes of \<open>c\<close> consecutive iterations of an edge loop of movie \<open>m\<close> that
  starts with the cursor at \<open>u\<close> and writes to the streams \<open>k\<close>.
\<close>

primrec walk ::
  "('r, 'g) lib \<Rightarrow> 'r config \<Rightarrow> 'r list list \<Rightarrow> 'r list list \<Rightarrow> size_t \<Rightarrow> sink \<Rightarrow> nat
     \<Rightarrow> size_t \<Rightarrow> 'r edge list"
where
  "walk lib cfg ut mt m k 0 u = []"
| "walk lib cfg ut mt m k (Suc c) u =
     \<lparr>e_sink = k, e_file = ((u + 2654435761) mod nusers cfg) mod nfiles cfg,
      e_user = (u + 2654435761) mod nusers cfg, e_item = m + nusers cfg,
      e_rating = d_dot lib (ut ! unat ((u + 2654435761) mod nusers cfg)) (mt ! unat m)\<rparr>
     # walk lib cfg ut mt m k c ((u + 2654435761) mod nusers cfg)"

text \<open>The cursor after the writes \<open>es\<close>, having started at \<open>u\<close>.\<close>

definition cursor_after :: "size_t \<Rightarrow> 'r edge list \<Rightarrow> size_t" where
  "cursor_after u es = last (u # map e_user es)"

text \<open>
  A list of user ids is a cursor chain from \<open>u\<close> when each id is the one before
  it (the first: \<open>u\<close>) advanced by 2654435761 modulo \<open>n\<close>, in \<^verbatim>\<open>size_t\<close> arithmetic.
\<close>

fun cursor_chain :: "size_t \<Rightarrow> size_t \<Rightarrow> size_t list \<Rightarrow> bool" where
  "cursor_chain n u [] = True"
| "cursor_chain n u (v # vs) = (v = (u + 2654435761) mod n \<and> cursor_chain n v vs)"

text \<open>What holds of every write of movie \<open>m\<close>.\<close>

definition edge_ok ::
  "('r, 'g) lib \<Rightarrow> 'r config \<Rightarrow> 'r list list \<Rightarrow> 'r list list \<Rightarrow> size_t \<Rightarrow> 'r edge \<Rightarrow> bool"
where
  "edge_ok lib cfg ut mt m e \<longleftrightarrow>
     e_file e = e_user e mod nfiles cfg \<and> e_file e < nfiles cfg \<and>
     e_user e < nusers cfg \<and> e_item e = m + nusers cfg \<and>
     e_rating e = d_dot lib (ut ! unat (e_user e)) (mt ! unat m)"

text \<open>
  Position \<open>j\<close> of a block was written by the training loop when it is one of the
  first \<open>b_degree\<close> writes, and by the validation loop otherwise.
\<close>

definition sink_at :: "'r block \<Rightarrow> nat \<Rightarrow> sink" where
  "sink_at b j = (if j < unat (b_degree b) then Train else Validation)"

text \<open>
  What holds of the block written for movie \<open>m\<close>.
\<close>

definition block_ok ::
  "('r, 'g) lib \<Rightarrow> 'r config \<Rightarrow> 'r list list \<Rightarrow> 'r list list \<Rightarrow> size_t \<Rightarrow> 'r block \<Rightarrow> bool"
where
  "block_ok lib cfg ut mt m b \<longleftrightarrow>
     b_movie b = m \<and> 1 \<le> unat (b_degree b) \<and>
     unat (b_degree b) \<le> unat (nusers cfg - nvalidation cfg) \<and>
     (\<forall>e \<in> set (b_edges b). edge_ok lib cfg ut mt m e) \<and>
     (\<forall>j < length (b_edges b). e_sink (b_edges b ! j) = sink_at b j)"

text \<open>
  What holds of the blocks written so far, at every point of the loop over movies.
\<close>

definition blocks_inv ::
  "('r, 'g) lib \<Rightarrow> 'r config \<Rightarrow> 'r list list \<Rightarrow> 'r list list \<Rightarrow> 'r block list \<Rightarrow> bool"
where
  "blocks_inv lib cfg ut mt bs \<longleftrightarrow>
     (\<forall>i < length bs. block_ok lib cfg ut mt (of_nat i) (bs ! i)) \<and>
     cursor_chain (nusers cfg) 0 (map e_user (concat (map b_edges bs))) \<and>
     length bs \<le> unat (nmovies cfg)"

text \<open>Every block holds all the writes of its two loops.\<close>

definition blocks_full :: "'r config \<Rightarrow> 'r block list \<Rightarrow> bool" where
  "blocks_full cfg bs \<longleftrightarrow>
     (\<forall>b \<in> set bs. length (b_edges b) = unat (b_degree b) + unat (nvalidation cfg))"

subsection \<open>The environment and the shard files\<close>

text \<open>
  Every request that the run makes to its environment before the check of line 129
  is served: \<^verbatim>\<open>create_directory\<close> returns, and each vector of streams, stream
  object, vector of factors and factor gets its storage.
\<close>

definition setup_served :: "environment \<Rightarrow> 'r config \<Rightarrow> bool" where
  "setup_served env cfg \<longleftrightarrow>
     create_directory env (output_folder cfg) \<noteq> None \<and>
     new_vector env (Streams Train) 8 (nfiles cfg) = None \<and>
     new_vector env (Streams Validation) 8 (nfiles cfg) = None \<and>
     (\<forall>i. i < nfiles cfg \<longrightarrow>
        allocates env (Stream Train i) \<and> allocates env (Stream Validation i)) \<and>
     new_vector env (Factors Users) 16 (nusers cfg) = None \<and>
     new_vector env (Factors Movies) 16 (nmovies cfg) = None \<and>
     (\<forall>i. i < nusers cfg \<longrightarrow> resize env (Factor Users i) (D cfg) = None) \<and>
     (\<forall>i. i < nmovies cfg \<longrightarrow> resize env (Factor Movies i) (D cfg) = None)"

text \<open>The paths of the first \<open>n\<close> shards, in the order in which the run opens them.\<close>

definition shard_paths :: "('r, 'g) lib \<Rightarrow> 'r config \<Rightarrow> nat \<Rightarrow> string list" where
  "shard_paths lib cfg n =
     concat (map (\<lambda>i. [shard_name lib cfg Train (of_nat i),
                         shard_name lib cfg Validation (of_nat i)])
       [0..<n])"

section \<open>A concrete library, environment and configuration\<close>

text \<open>
  An instance of the parameters on which the run can be computed: doubles are
  rationals, the generator is a linear congruential generator on naturals, the
  power-law exponent is 2, the directory and every file can be created, the heap
  serves every request, and the configuration is the end-to-end scenario with two
  shards.
\<close>

definition demo_lib :: "(rat, nat) lib" where
  "demo_lib =
     \<lparr>gen_seed = (\<lambda>s g. unat s),
      gen_gaussian = (\<lambda>m sd g. (m + sd * (of_nat (g mod 7) - 3) / 2, (75 * g + 74) mod 65537)),
      gen_uniform = (\<lambda>lo hi g. (lo + (hi - lo) * of_nat (g mod 100) / 100, (75 * g + 74) mod 65537)),
      d_of_int = of_int,
      d_of_size = (\<lambda>n. of_nat (unat n)),
      d_neg = uminus,
      d_pow = (\<lambda>x y. if y < 0 then 1 / x ^ nat \<lfloor>- y\<rfloor> else x ^ nat \<lfloor>y\<rfloor>),
      d_add = (+),
      d_div = (/),
      d_le = (\<le>),
      d_dot = (\<lambda>xs ys. sum_list (map2 (*) xs ys)),
      d_show = (\<lambda>r. (if r < 0 then ''-'' else '''') @ decimal (nat \<lfloor>\<bar>r\<bar>\<rfloor>)),
      tostr = (\<lambda>i. decimal (unat i))\<rparr>"

definition demo_env :: environment where
  "demo_env =
     \<lparr>create_directory = (\<lambda>p. Some True), ofstream_good = (\<lambda>p. True),
      allocates = (\<lambda>r. True)\<rparr>"

definition demo_cfg :: "rat config" where
  "demo_cfg =
     \<lparr>output_folder = ''synthetic_data'', nfiles = 2, D = 2, nusers = 10, nmovies = 3,
      nvalidation = 1, noise = 1 / 10, stdev = 2, alpha = 2\<rparr>"

text \<open>A configuration with fewer users than validation ratings per movie.\<close>

definition few_users_cfg :: "rat config" where
  "few_users_cfg = demo_cfg\<lparr>nusers := 1, nvalidation := 2\<rparr>"

text \<open>
  An environment in which the directory exists already and no file can be opened.
\<close>

definition failing_env :: environment where
  "failing_env =
     \<lparr>create_directory = (\<lambda>p. Some False), ofstream_good = (\<lambda>p. False),
      allocates = (\<lambda>r. True)\<rparr>"

text \<open>
  An environment in which the directory cannot be created, as when its parent
  directory is missing.
\<close>

definition no_directory_env :: environment where
  "no_directory_env = demo_env\<lparr>create_directory := (\<lambda>p. None)\<rparr>"

text \<open>A generator whose constructor left it in another state.\<close>

definition other_init :: nat where
  "other_init = 17"

section \<open>Properties of the loops\<close>

subsection \<open>Counting loops\<close>

lemma size_t_succ: "i < n \<Longrightarrow> unat (i + 1) = Suc (unat i)" for i n :: size_t
proof -
  assume a: "i < n"
  have "unat i < unat n" using a by (simp add: word_less_nat_alt)
  moreover have "unat n < 2 ^ 64" using unsigned_less [of n] by simp
  ultimately have "unat i + 1 < 2 ^ 64" by linarith
  then have "unat (i + 1) = unat i + unat (1 :: size_t)"
    by (simp add: unat_add_lem [THEN iffD1])
  then show ?thesis by simp
qed

lemma for_loop_eval:
  "for_loop i n body s = (if i < n then resume (i + 1) n body (body i s) else (s, None))"
  by (subst for_loop.simps) (auto split: prod.splits option.splits)

lemma for_loop_rule:
  assumes "for_loop i n body s = (t, err)" and "i \<le> n" and "I i s"
    and "\<And>j s s' e. j < n \<Longrightarrow> I j s \<Longrightarrow> body j s = (s', e) \<Longrightarrow>
                 (case e of None \<Rightarrow> I (j + 1) s' | Some x \<Rightarrow> Q s')"
  shows "case err of None \<Rightarrow> I n t | Some x \<Rightarrow> Q t"
  using assms
proof (induction i n body s rule: for_loop.induct)
  case (1 i n body s)
  note step = "1.prems"(4)
  show ?case
  proof (cases "i < n")
    case False
    with "1.prems"(2) have "i = n" by simp
    moreover from False "1.prems"(1) have "t = s" "err = None"
      by (simp_all add: for_loop.simps [of i n body s])
    ultimately show ?thesis using "1.prems"(3) by simp
  next
    case True
    obtain s' e where b: "body i s = (s', e)" by (cases "body i s")
    from step [OF True "1.prems"(3) b]
    have st: "case e of None \<Rightarrow> I (i + 1) s' | Some x \<Rightarrow> Q s'" .
    show ?thesis
    proof (cases e)
      case (Some x)
      with True b "1.prems"(1) have "t = s'" "err = Some x"
        by (simp_all add: for_loop.simps [of i n body s])
      with st Some show ?thesis by simp
    next
      case None
      with True b "1.prems"(1) have r: "for_loop (i + 1) n body s' = (t, err)"
        by (simp add: for_loop.simps [of i n body s])
      have le: "i + 1 \<le> n" using True by (rule inc_le)
      from None st have "I (i + 1) s'" by simp
      from "1.IH" [OF True b [symmetric] _ r le this step] None
      show ?thesis by simp
    qed
  qed
qed

lemma for_loop_done: "\<not> i < n \<Longrightarrow> for_loop i n body s = (s, None)"
  by (simp add: for_loop.simps [of i n body s])

lemma for_loop_next:
  "i < n \<Longrightarrow> body i s = (s', None) \<Longrightarrow> for_loop i n body s = for_loop (i + 1) n body s'"
  by (simp add: for_loop.simps [of i n body s])

lemma for_loop_served:
  assumes "\<And>j s. j < n \<Longrightarrow> snd (body j s) = None"
  shows "snd (for_loop i n body s) = None"
  using assms
proof (induction i n body s rule: for_loop.induct)
  case (1 i n body s)
  show ?case
  proof (cases "i < n")
    case False
    then show ?thesis by (simp add: for_loop_done)
  next
    case True
    obtain s' e where b: "body i s = (s', e)" by (cases "body i s")
    with "1.prems" [OF True, of s] have e: "e = None" by simp
    from "1.IH" [OF True b [symmetric] e "1.prems"] True b e show ?thesis
      by (simp add: for_loop.simps [of i n body s])
  qed
qed

lemma for_loop_rel:
  assumes "R s t"
    and "\<And>j s t. j < n \<Longrightarrow> R s t \<Longrightarrow>
           R (fst (body j s)) (fst (body' j t)) \<and> snd (body j s) = snd (body' j t)"
  shows "R (fst (for_loop i n body s)) (fst (for_loop i n body' t)) \<and>
     snd (for_loop i n body s) = snd (for_loop i n body' t)"
  using assms
proof (induction i n body s arbitrary: t rule: for_loop.induct)
  case (1 i n body s)
  note step = "1.prems"(2)
  show ?case
  proof (cases "i < n")
    case False
    with "1.prems"(1) show ?thesis by (simp add: for_loop_done)
  next
    case True
    obtain s' e where b: "body i s = (s', e)" by (cases "body i s")
    obtain t' e' where b': "body' i t = (t', e')" by (cases "body' i t")
    from step [OF True "1.prems"(1)] b b' have R': "R s' t'" and e: "e' = e"
      by simp_all
    show ?thesis
    proof (cases e)
      case (Some x)
      with True b b' e R' show ?thesis
        by (simp add: for_loop.simps [of i n body s] for_loop.simps [of i n body' t])
    next
      case None
      from "1.IH" [OF True b [symmetric] None R' step] True b b' e None show ?thesis
        by (simp add: for_loop.simps [of i n body s] for_loop.simps [of i n body' t])
    qed
  qed
qed

subsection \<open>The edge loops\<close>

lemma cursor_after_Nil [simp]: "cursor_after u [] = u"
  by (simp add: cursor_after_def)

lemma cursor_after_Cons [simp]: "cursor_after u (e # es) = cursor_after (e_user e) es"
  by (simp add: cursor_after_def)

lemma cursor_after_append [simp]:
  "cursor_after u (es @ fs) = cursor_after (cursor_after u es) fs"
  by (induction es arbitrary: u) simp_all

lemma cursor_chain_append:
  "cursor_chain n u (map e_user (es @ fs)) \<longleftrightarrow>
     cursor_chain n u (map e_user es) \<and> cursor_chain n (cursor_after u es) (map e_user fs)"
  by (induction es arbitrary: u) auto

lemma train_edge_step:
  "nusers cfg \<noteq> 0 \<Longrightarrow> nfiles cfg \<noteq> 0 \<Longrightarrow>
   train_edge lib cfg ut mt m i (u, out) =
     ((cursor_after u (walk lib cfg ut mt m Train 1 u), out @ walk lib cfg ut mt m Train 1 u), None)"
  by (simp add: train_edge_def Let_def)

lemma validation_edge_step:
  "nusers cfg \<noteq> 0 \<Longrightarrow> nfiles cfg \<noteq> 0 \<Longrightarrow>
   validation_edge lib cfg ut mt m i (u, out) =
     ((cursor_after u (walk lib cfg ut mt m Validation 1 u),
       out @ walk lib cfg ut mt m Validation 1 u), None)"
  by (simp add: validation_edge_def Let_def)

lemma train_loop_walk:
  assumes "nusers cfg \<noteq> 0" and "nfiles cfg \<noteq> 0"
  shows "for_loop i n (train_edge lib cfg ut mt m) (u, out) =
     ((cursor_after u (walk lib cfg ut mt m Train (unat n - unat i) u),
       out @ walk lib cfg ut mt m Train (unat n - unat i) u), None)"
proof (induction "unat n - unat i" arbitrary: i u out)
  case 0
  then have "\<not> i < n" by (simp add: word_less_nat_alt)
  with 0 show ?case by (simp add: for_loop_done)
next
  case (Suc c)
  then have lt: "i < n" by (simp add: word_less_nat_alt)
  have c: "c = unat n - unat (i + 1)"
    using Suc(2) size_t_succ [OF lt] by simp
  have d: "unat n - unat i = Suc (unat n - unat (i + 1))"
    using Suc(2) c by simp
  let ?w = "walk lib cfg ut mt m Train 1 u"
  have step: "train_edge lib cfg ut mt m i (u, out) = ((cursor_after u ?w, out @ ?w), None)"
    by (rule train_edge_step [OF assms])
  have "for_loop i n (train_edge lib cfg ut mt m) (u, out) =
      for_loop (i + 1) n (train_edge lib cfg ut mt m) (cursor_after u ?w, out @ ?w)"
    using lt step by (rule for_loop_next)
  also note Suc(1) [OF c]
  finally show ?case
    by (simp add: d)
qed

lemma validation_loop_walk:
  assumes "nusers cfg \<noteq> 0" and "nfiles cfg \<noteq> 0"
  shows "for_loop i n (validation_edge lib cfg ut mt m) (u, out) =
     ((cursor_after u (walk lib cfg ut mt m Validation (unat n - unat i) u),
       out @ walk lib cfg ut mt m Validation (unat n - unat i) u), None)"
proof (induction "unat n - unat i" arbitrary: i u out)
  case 0
  then have "\<not> i < n" by (simp add: word_less_nat_alt)
  with 0 show ?case by (simp add: for_loop_done)
next
  case (Suc c)
  then have lt: "i < n" by (simp add: word_less_nat_alt)
  have c: "c = unat n - unat (i + 1)"
    using Suc(2) size_t_succ [OF lt] by simp
  have d: "unat n - unat i = Suc (unat n - unat (i + 1))"
    using Suc(2) c by simp
  let ?w = "walk lib cfg ut mt m Validation 1 u"
  have step: "validation_edge lib cfg ut mt m i (u, out) = ((cursor_after u ?w, out @ ?w), None)"
    by (rule validation_edge_step [OF assms])
  have "for_loop i n (validation_edge lib cfg ut mt m) (u, out) =
      for_loop (i + 1) n (validation_edge lib cfg ut mt m) (cursor_after u ?w, out @ ?w)"
    using lt step by (rule for_loop_next)
  also note Suc(1) [OF c]
  finally show ?case
    by (simp add: d)
qed

lemma train_loop_no_files:
  assumes "nusers cfg \<noteq> 0" and "nfiles cfg = 0"
  shows "for_loop 0 n (train_edge lib cfg ut mt m) (u, out) =
     (if 0 < n then (((u + 2654435761) mod nusers cfg, out), Some DivideByZero)
      else ((u, out), None))"
  using assms by (simp add: for_loop.simps [of 0 n] train_edge_def)

lemma length_walk [simp]: "length (walk lib cfg ut mt m k c u) = c"
  by (induction c arbitrary: u) simp_all

lemma walk_sink: "e \<in> set (walk lib cfg ut mt m k c u) \<Longrightarrow> e_sink e = k"
  by (induction c arbitrary: u) auto

lemma walk_edge_ok:
  "nusers cfg \<noteq> 0 \<Longrightarrow> nfiles cfg \<noteq> 0 \<Longrightarrow> e \<in> set (walk lib cfg ut mt m k c u) \<Longrightarrow>
   edge_ok lib cfg ut mt m e"
proof (induction c arbitrary: u)
  case 0
  then show ?case by simp
next
  case (Suc c)
  have a: "(u + 2654435761) mod nusers cfg < nusers cfg"
    using Suc.prems(1) by (simp add: word_mod_less_divisor word_neq_0_conv)
  have b: "(u + 2654435761) mod nusers cfg mod nfiles cfg < nfiles cfg"
    using Suc.prems(2) by (simp add: word_mod_less_divisor word_neq_0_conv)
  from Suc show ?case
    using a b by (auto simp: edge_ok_def)
qed

lemma walk_chain: "cursor_chain (nusers cfg) u (map e_user (walk lib cfg ut mt m k c u))"
  by (induction c arbitrary: u) simp_all

lemma walk_sink_nth: "j < c \<Longrightarrow> e_sink (walk lib cfg ut mt m k c u ! j) = k"
  by (rule walk_sink [of _ lib cfg ut mt m k c u]) simp

lemma nth_walks:
  "j < c + d \<Longrightarrow>
   e_sink ((walk lib cfg ut mt m Train c u @ walk lib cfg ut mt m Validation d v) ! j) =
     (if j < c then Train else Validation)"
  by (simp add: nth_append walk_sink_nth)

subsection \<open>The sampler and the degree distribution\<close>

lemma locate_less: "cs \<noteq> [] \<Longrightarrow> locate P cs < length cs"
  by (induction P cs rule: locate.induct) simp_all

lemma locate_first:
  "k < length cs \<Longrightarrow> P (cs ! k) \<Longrightarrow> (\<And>j. j < k \<Longrightarrow> \<not> P (cs ! j)) \<Longrightarrow> locate P cs = k"
proof (induction P cs arbitrary: k rule: locate.induct)
  case (1 P)
  then show ?case by simp
next
  case (2 P c)
  then show ?case by simp
next
  case (3 P c c' cs)
  show ?case
  proof (cases k)
    case 0
    with "3.prems"(2) show ?thesis by simp
  next
    case (Suc k')
    have n: "\<not> P c"
      using "3.prems"(3) [of 0] Suc by simp
    have "locate P (c' # cs) = k'"
    proof (rule "3.IH" [OF n])
      show "k' < length (c' # cs)" using "3.prems"(1) Suc by simp
      show "P ((c' # cs) ! k')" using "3.prems"(2) Suc by simp
      show "\<not> P ((c' # cs) ! j)" if "j < k'" for j
        using "3.prems"(3) [of "Suc j"] that Suc by simp
    qed
    with n Suc show ?thesis by simp
  qed
qed

lemma locate_clamps:
  "cs \<noteq> [] \<Longrightarrow> (\<And>c. c \<in> set cs \<Longrightarrow> \<not> P c) \<Longrightarrow> locate P cs = length cs - 1"
  by (induction P cs rule: locate.induct) simp_all

lemma multinomial_cdf_index:
  assumes "multinomial_cdf lib cdf g = (idx, g')" and "length cdf = unat (n :: size_t)"
    and "n \<noteq> 0"
  shows "idx < n"
proof -
  let ?k = "locate (d_le lib (fst (gen_uniform lib (d_of_int lib 0) (d_of_int lib 1) g))) cdf"
  from assms(1) have idx: "idx = of_nat ?k"
    by (auto simp: multinomial_cdf_def Let_def split: prod.splits)
  have "unat n \<noteq> 0"
    using assms(3) by (simp add: unsigned_eq_0_iff)
  with assms(2) have "cdf \<noteq> []" by auto
  from locate_less [OF this] assms(2) have "?k < unat n" by simp
  moreover have "unat (of_nat ?k :: size_t) \<le> ?k"
    by (simp add: unat_of_nat)
  ultimately show ?thesis
    unfolding idx by (simp add: word_less_nat_alt)
qed

lemma power_law_length:
  "length (fst (for_loop 0 n (power_law lib cfg) p)) = length p"
proof -
  obtain t err where r: "for_loop 0 n (power_law lib cfg) p = (t, err)"
    by (cases "for_loop 0 n (power_law lib cfg) p")
  let ?I = "\<lambda>(j :: size_t) (s :: 'a list). length s = length p"
  have "case err of None \<Rightarrow> ?I n t | Some x \<Rightarrow> ?I n t"
    by (rule for_loop_rule [where I = ?I, OF r])
       (auto simp: power_law_def split: option.splits)
  then show ?thesis using r by (cases err) simp_all
qed

lemma length_prefix_sums [simp]: "length (prefix_sums lib acc ps) = length ps"
  by (induction ps arbitrary: acc) simp_all

lemma length_pdf2cdf [simp]: "length (pdf2cdf lib prob) = length prob"
  by (simp add: pdf2cdf_def Let_def)

lemma length_degree_cdf: "length (degree_cdf lib cfg) = unat (nusers cfg - nvalidation cfg)"
  by (simp add: degree_cdf_def Let_def power_law_length)

subsection \<open>The writes of one movie\<close>

lemma block_ok_walks:
  assumes "nusers cfg \<noteq> 0" and "nfiles cfg \<noteq> 0" and "idx < nusers cfg - nvalidation cfg"
  shows "block_ok lib cfg ut mt m
     \<lparr>b_movie = m, b_degree = idx + 1,
      b_edges = walk lib cfg ut mt m Train (unat (idx + 1)) u
                @ walk lib cfg ut mt m Validation c v\<rparr>"
proof -
  have d: "unat (idx + 1) = Suc (unat idx)"
    using assms(3) by (rule size_t_succ)
  have "unat idx < unat (nusers cfg - nvalidation cfg)"
    using assms(3) by (simp add: word_less_nat_alt)
  with d have "unat (idx + 1) \<le> unat (nusers cfg - nvalidation cfg)" by simp
  moreover have "1 \<le> unat (idx + 1)" using d by simp
  ultimately show ?thesis
    using walk_edge_ok [OF assms(1,2)]
    by (auto simp: block_ok_def sink_at_def nth_walks)
qed

lemma block_ok_empty:
  assumes "idx < nusers cfg - nvalidation cfg"
  shows "block_ok lib cfg ut mt m \<lparr>b_movie = m, b_degree = idx + 1, b_edges = []\<rparr>"
proof -
  have d: "unat (idx + 1) = Suc (unat idx)"
    using assms by (rule size_t_succ)
  have "unat idx < unat (nusers cfg - nvalidation cfg)"
    using assms by (simp add: word_less_nat_alt)
  with d show ?thesis
    by (simp add: block_ok_def)
qed

lemma edges_snoc: "concat (map b_edges (bs @ [b])) = concat (map b_edges bs) @ b_edges b"
  by simp

lemma blocks_inv_snoc:
  assumes "blocks_inv lib cfg ut mt bs" and "block_ok lib cfg ut mt (of_nat (length bs)) b"
    and "cursor_chain (nusers cfg) (cursor_after 0 (concat (map b_edges bs))) (map e_user (b_edges b))"
    and "length bs < unat (nmovies cfg)"
  shows "blocks_inv lib cfg ut mt (bs @ [b])"
proof -
  have "cursor_chain (nusers cfg) 0 (map e_user (concat (map b_edges (bs @ [b]))))"
    unfolding edges_snoc cursor_chain_append
    using assms(1,3) by (simp add: blocks_inv_def)
  moreover have "\<forall>i < length (bs @ [b]). block_ok lib cfg ut mt (of_nat i) ((bs @ [b]) ! i)"
    using assms(1,2) by (auto simp: blocks_inv_def nth_append less_Suc_eq)
  ultimately show ?thesis
    using assms(4) by (simp add: blocks_inv_def)
qed

lemma movie_step_walk:
  assumes "multinomial_cdf lib cdf g = (idx, g1)" and "nusers cfg \<noteq> 0" and "nfiles cfg \<noteq> 0"
  shows "movie_step lib cfg ut mt cdf m (g, u, bs) =
     ((g1,
       cursor_after (cursor_after u (walk lib cfg ut mt m Train (unat (idx + 1)) u))
         (walk lib cfg ut mt m Validation (unat (nvalidation cfg))
            (cursor_after u (walk lib cfg ut mt m Train (unat (idx + 1)) u))),
       bs @ [\<lparr>b_movie = m, b_degree = idx + 1,
               b_edges = walk lib cfg ut mt m Train (unat (idx + 1)) u
                 @ walk lib cfg ut mt m Validation (unat (nvalidation cfg))
                     (cursor_after u (walk lib cfg ut mt m Train (unat (idx + 1)) u))\<rparr>]),
      None)"
  using assms(1)
  by (simp add: movie_step_def Let_def train_loop_walk [OF assms(2,3)]
      validation_loop_walk [OF assms(2,3)])

lemma movie_step_no_files:
  assumes "multinomial_cdf lib cdf g = (idx, g1)" and "nusers cfg \<noteq> 0" and "nfiles cfg = 0"
    and "idx + 1 \<noteq> 0"
  shows "movie_step lib cfg ut mt cdf m (g, u, bs) =
     ((g1, (u + 2654435761) mod nusers cfg,
       bs @ [\<lparr>b_movie = m, b_degree = idx + 1, b_edges = []\<rparr>]),
      Some DivideByZero)"
  using assms(1,4)
  by (simp add: movie_step_def Let_def train_loop_no_files [OF assms(2,3)] word_neq_0_conv)

lemma movie_step_inv:
  assumes nz: "nusers cfg \<noteq> 0" and len: "length cdf = unat (nusers cfg - nvalidation cfg)"
    and ne: "nusers cfg - nvalidation cfg \<noteq> 0"
    and inv: "blocks_inv lib cfg ut mt bs" and m: "length bs = unat m" and lt: "m < nmovies cfg"
    and full: "blocks_full cfg bs" and u: "u = cursor_after 0 (concat (map b_edges bs))"
    and step: "movie_step lib cfg ut mt cdf m (g, u, bs) = ((g', u', bs'), e)"
  shows "blocks_inv lib cfg ut mt bs' \<and>
     (e = None \<longrightarrow> length bs' = unat (m + 1) \<and> blocks_full cfg bs' \<and>
        u' = cursor_after 0 (concat (map b_edges bs')))"
proof -
  obtain idx g1 where s': "multinomial_cdf lib cdf g = (idx, g1)"
    by (cases "multinomial_cdf lib cdf g")
  have room: "length bs < unat (nmovies cfg)"
    using m lt by (simp add: word_less_nat_alt)
  have mm: "of_nat (length bs) = m"
    using m by simp
  have idx: "idx < nusers cfg - nvalidation cfg"
    using s' len ne by (rule multinomial_cdf_index)
  have d: "unat (idx + 1) = Suc (unat idx)"
    using idx by (rule size_t_succ)
  show ?thesis
  proof (cases "nfiles cfg = 0")
    case True
    have "idx + 1 \<noteq> 0" using d by (metis Zero_not_Suc unat_0)
    from movie_step_no_files [OF s' nz True this] step
    have bs': "bs' = bs @ [\<lparr>b_movie = m, b_degree = idx + 1, b_edges = []\<rparr>]"
      and e: "e = Some DivideByZero"
      by simp_all
    have "blocks_inv lib cfg ut mt bs'"
      unfolding bs' using inv _ _ room
      by (rule blocks_inv_snoc) (simp_all add: mm block_ok_empty [OF idx])
    with e show ?thesis by simp
  next
    case False
    let ?tr = "walk lib cfg ut mt m Train (unat (idx + 1)) u"
    let ?va = "walk lib cfg ut mt m Validation (unat (nvalidation cfg)) (cursor_after u ?tr)"
    let ?b = "\<lparr>b_movie = m, b_degree = idx + 1, b_edges = ?tr @ ?va\<rparr>"
    from movie_step_walk [OF s' nz False] step
    have bs': "bs' = bs @ [?b]" and e: "e = None"
      and u': "u' = cursor_after (cursor_after u ?tr) ?va"
      by simp_all
    have ok: "block_ok lib cfg ut mt (of_nat (length bs)) ?b"
      unfolding mm using nz False idx by (rule block_ok_walks)
    have ch: "cursor_chain (nusers cfg) (cursor_after 0 (concat (map b_edges bs)))
        (map e_user (b_edges ?b))"
      using walk_chain [of cfg u lib ut mt m Train "unat (idx + 1)"]
        walk_chain [of cfg "cursor_after u ?tr" lib ut mt m Validation "unat (nvalidation cfg)"]
      by (simp add: cursor_chain_append u [symmetric] del: map_append)
    have "blocks_inv lib cfg ut mt bs'"
      unfolding bs' using inv ok ch room by (rule blocks_inv_snoc)
    moreover have "length bs' = unat (m + 1)"
      using bs' m size_t_succ [OF lt] by simp
    moreover have "blocks_full cfg bs'"
      using full by (simp add: bs' blocks_full_def)
    moreover have "u' = cursor_after 0 (concat (map b_edges bs'))"
      by (simp add: bs' u' u)
    ultimately show ?thesis by simp
  qed
qed

subsection \<open>The loop over movies\<close>

lemma movies_loop_inv:
  assumes nz: "nusers cfg \<noteq> 0" and len: "length cdf = unat (nusers cfg - nvalidation cfg)"
    and ne: "nusers cfg - nvalidation cfg \<noteq> 0"
    and run: "for_loop 0 (nmovies cfg) (movie_step lib cfg ut mt cdf) (g, 0, []) = ((g', u, bs), err)"
  shows "blocks_inv lib cfg ut mt bs \<and>
     (err = None \<longrightarrow> length bs = unat (nmovies cfg) \<and> blocks_full cfg bs)"
proof -
  let ?I = "\<lambda>j (s :: 'b \<times> size_t \<times> 'a block list). blocks_inv lib cfg ut mt (snd (snd s)) \<and>
      length (snd (snd s)) = unat j \<and> blocks_full cfg (snd (snd s)) \<and>
      fst (snd s) = cursor_after 0 (concat (map b_edges (snd (snd s))))"
  let ?Q = "\<lambda>s :: 'b \<times> size_t \<times> 'a block list. blocks_inv lib cfg ut mt (snd (snd s))"
  have "case err of None \<Rightarrow> ?I (nmovies cfg) (g', u, bs) | Some x \<Rightarrow> ?Q (g', u, bs)"
  proof (rule for_loop_rule [where I = ?I and Q = ?Q, OF run])
    show "0 \<le> nmovies cfg" by simp
    show "?I 0 (g, 0, [])" by (simp add: blocks_inv_def blocks_full_def)
  next
    fix j s s' e
    assume j: "j < nmovies cfg" and I: "?I j s"
      and b: "movie_step lib cfg ut mt cdf j s = (s', e)"
    obtain g1 u1 bs1 where s: "s = (g1, u1, bs1)" by (cases s)
    obtain g2 u2 bs2 where s': "s' = (g2, u2, bs2)" by (cases s')
    from I s have i1: "blocks_inv lib cfg ut mt bs1" and i2: "length bs1 = unat j"
      and i3: "blocks_full cfg bs1" and i4: "u1 = cursor_after 0 (concat (map b_edges bs1))"
      by simp_all
    from b s s' have st: "movie_step lib cfg ut mt cdf j (g1, u1, bs1) = ((g2, u2, bs2), e)"
      by simp
    from movie_step_inv [OF nz len ne i1 i2 j i3 i4 st] s'
    show "case e of None \<Rightarrow> ?I (j + 1) s' | Some x \<Rightarrow> ?Q s'"
      by (cases e) simp_all
  qed
  then show ?thesis by (cases err) simp_all
qed

lemma movie_step_degree:
  assumes "movie_step lib cfg ut mt cdf m (g, u, bs) = ((g', u', bs'), e)"
  shows "\<exists>idx g1 es. multinomial_cdf lib cdf g = (idx, g1) \<and>
     bs' = bs @ [\<lparr>b_movie = m, b_degree = idx + 1, b_edges = es\<rparr>]"
  using assms
  by (auto simp: movie_step_def Let_def split: prod.splits option.splits)

lemma movies_loop_degrees:
  fixes lib :: "('r, 'g) lib"
  assumes "for_loop 0 n (movie_step lib cfg ut mt cdf) (g, 0, []) = ((g', u, bs), err)"
    and "b \<in> set bs"
  shows "\<exists>g idx g1. multinomial_cdf lib cdf g = (idx, g1) \<and> b_degree b = idx + 1"
proof -
  let ?I = "\<lambda>(j :: size_t) (s :: 'g \<times> size_t \<times> 'r block list).
      \<forall>b \<in> set (snd (snd s)).
        \<exists>g idx g1. multinomial_cdf lib cdf g = (idx, g1) \<and> b_degree b = idx + 1"
  have "case err of None \<Rightarrow> ?I n (g', u, bs) | Some x \<Rightarrow> ?I n (g', u, bs)"
  proof (rule for_loop_rule [where I = ?I and Q = "?I n", OF assms(1)])
    show "0 \<le> n" by simp
    show "?I 0 (g, 0, [])" by simp
  next
    fix j s s' e
    assume I: "?I j s" and b: "movie_step lib cfg ut mt cdf j s = (s', e)"
    obtain g1 u1 bs1 where s: "s = (g1, u1, bs1)" by (cases s)
    obtain g2 u2 bs2 where s': "s' = (g2, u2, bs2)" by (cases s')
    from b s s' have "movie_step lib cfg ut mt cdf j (g1, u1, bs1) = ((g2, u2, bs2), e)"
      by simp
    from movie_step_degree [OF this] I s have "?I (j + 1) s'"
      unfolding s' by fastforce
    then show "case e of None \<Rightarrow> ?I (j + 1) s' | Some x \<Rightarrow> ?I n s'"
      by (cases e) simp_all
  qed
  then have "?I n (g', u, bs)" by (cases err) simp_all
  with assms(2) show ?thesis by simp
qed

subsection \<open>The factor tables\<close>

lemma draw_factors_length:
  "length (fst (fst (for_loop 0 n (draw_factor lib env cfg tbl) (fs, g)))) = length fs"
proof -
  obtain t err where r: "for_loop 0 n (draw_factor lib env cfg tbl) (fs, g) = (t, err)"
    by (cases "for_loop 0 n (draw_factor lib env cfg tbl) (fs, g)")
  let ?I = "\<lambda>(j :: size_t) (s :: 'a list list \<times> 'b). length (fst s) = length fs"
  have "case err of None \<Rightarrow> ?I n t | Some x \<Rightarrow> ?I n t"
    by (rule for_loop_rule [where I = ?I, OF r])
       (auto simp: draw_factor_def Let_def split: prod.splits option.splits)
  then show ?thesis using r by (cases err) simp_all
qed

lemma length_latent_factors:
  "latent_factors lib env cfg tbl n g = ((t, g'), e) \<Longrightarrow> length t = unat n"
  using draw_factors_length [of n lib env cfg tbl "replicate (unat n) []" g]
  by (simp add: latent_factors_def)

lemma draw_factor_status:
  "snd (draw_factor lib env cfg tbl i s) = resize env (Factor tbl i) (D cfg)"
  by (cases s) (simp add: draw_factor_def Let_def split: option.splits prod.splits)

lemma latent_factors_served:
  assumes "\<And>i. i < n \<Longrightarrow> resize env (Factor tbl i) (D cfg) = None"
  shows "snd (latent_factors lib env cfg tbl n g) = None"
  unfolding latent_factors_def
  by (rule for_loop_served) (simp add: draw_factor_status assms)

subsection \<open>The loop that opens the files\<close>

lemma shard_paths_Suc:
  "shard_paths lib cfg (Suc n) =
     shard_paths lib cfg n @ [shard_name lib cfg Train (of_nat n), shard_name lib cfg Validation (of_nat n)]"
  by (simp add: shard_paths_def)

lemma open_shard_status:
  "snd (open_shard lib env cfg i s) =
     (if allocates env (Stream Train i) \<and> allocates env (Stream Validation i) then None
      else Some BadAlloc)"
  by (cases s) (simp add: open_shard_def Let_def split: prod.splits)

lemma open_shard_created:
  "open_shard lib env cfg i (cr, lg) = ((cr', lg'), None) \<Longrightarrow>
   cr' = cr @ filter (ofstream_good env) [shard_name lib cfg Train i, shard_name lib cfg Validation i]"
  by (auto simp: open_shard_def shard_name_def Let_def split: if_splits)

lemma open_shard_logged:
  assumes "open_shard lib env cfg i (cr, lg) = ((cr', lg'), None)"
  shows "set lg \<subseteq> set lg'"
    and "\<not> ofstream_good env (shard_name lib cfg k i) \<Longrightarrow>
      ErrorCreatingFile (shard_name lib cfg Train i) \<in> set lg'"
proof -
  show "set lg \<subseteq> set lg'"
    using assms by (auto simp: open_shard_def Let_def split: if_splits)
  show "\<not> ofstream_good env (shard_name lib cfg k i) \<Longrightarrow>
      ErrorCreatingFile (shard_name lib cfg Train i) \<in> set lg'"
    using assms by (cases k) (auto simp: open_shard_def shard_name_def Let_def split: if_splits)
qed

lemma open_files_served:
  assumes "\<And>i. i < nfiles cfg \<Longrightarrow>
      allocates env (Stream Train i) \<and> allocates env (Stream Validation i)"
  shows "snd (open_files lib env cfg lg) = None"
  unfolding open_files_def
  by (rule for_loop_served) (simp add: open_shard_status assms)

lemma open_files_created:
  assumes "open_files lib env cfg lg = ((cr, lg'), None)"
  shows "cr = filter (ofstream_good env) (shard_paths lib cfg (unat (nfiles cfg)))"
proof -
  let ?I = "\<lambda>(j :: size_t) (s :: string list \<times> log_entry list).
      fst s = filter (ofstream_good env) (shard_paths lib cfg (unat j))"
  have "case None :: error option of None \<Rightarrow> ?I (nfiles cfg) (cr, lg') | Some x \<Rightarrow> True"
  proof (rule for_loop_rule [where I = ?I and Q = "\<lambda>s. True",
        OF assms [unfolded open_files_def]])
    show "0 \<le> nfiles cfg" by simp
    show "?I 0 ([], lg)" by (simp add: shard_paths_def)
  next
    fix j s s' e
    assume j: "j < nfiles cfg" and I: "?I j s" and b: "open_shard lib env cfg j s = (s', e)"
    obtain c l where s: "s = (c, l)" by (cases s)
    obtain c' l' where s': "s' = (c', l')" by (cases s')
    show "case e of None \<Rightarrow> ?I (j + 1) s' | Some x \<Rightarrow> True"
    proof (cases e)
      case None
      with open_shard_created [of lib env cfg j c l c' l'] b s s'
      have c': "c' = c @ filter (ofstream_good env)
          [shard_name lib cfg Train j, shard_name lib cfg Validation j]"
        by simp
      have "unat (j + 1) = Suc (unat j)" using j by (rule size_t_succ)
      then have "?I (j + 1) s'"
        using I s s' c' by (simp add: shard_paths_Suc)
      with None show ?thesis by simp
    qed simp
  qed
  then show ?thesis by simp
qed

lemma open_files_logged:
  assumes "open_files lib env cfg lg = ((cr, lg'), None)"
  shows "set lg \<subseteq> set lg'"
    and "i < nfiles cfg \<Longrightarrow> \<not> ofstream_good env (shard_name lib cfg k i) \<Longrightarrow>
      ErrorCreatingFile (shard_name lib cfg Train i) \<in> set lg'"
proof -
  let ?I = "\<lambda>(j :: size_t) (s :: string list \<times> log_entry list).
      set lg \<subseteq> set (snd s) \<and>
      (\<forall>i k. i < j \<longrightarrow> \<not> ofstream_good env (shard_name lib cfg k i) \<longrightarrow>
         ErrorCreatingFile (shard_name lib cfg Train i) \<in> set (snd s))"
  have "case None :: error option of None \<Rightarrow> ?I (nfiles cfg) (cr, lg') | Some x \<Rightarrow> True"
  proof (rule for_loop_rule [where I = ?I and Q = "\<lambda>s. True",
        OF assms [unfolded open_files_def]])
    show "0 \<le> nfiles cfg" by simp
    show "?I 0 ([], lg)" by simp
  next
    fix j s s' e
    assume j: "j < nfiles cfg" and I: "?I j s" and b: "open_shard lib env cfg j s = (s', e)"
    obtain c l where s: "s = (c, l)" by (cases s)
    obtain c' l' where s': "s' = (c', l')" by (cases s')
    show "case e of None \<Rightarrow> ?I (j + 1) s' | Some x \<Rightarrow> True"
    proof (cases e)
      case None
      with b s s' have o: "open_shard lib env cfg j (c, l) = ((c', l'), None)" by simp
      note sub = open_shard_logged(1) [OF o] and new = open_shard_logged(2) [OF o]
      have suc: "unat (j + 1) = Suc (unat j)" using j by (rule size_t_succ)
      have "ErrorCreatingFile (shard_name lib cfg Train i) \<in> set l'"
        if "i < j + 1" and "\<not> ofstream_good env (shard_name lib cfg k i)" for i k
      proof (cases "i = j")
        case True
        with new that(2) show ?thesis by simp
      next
        case False
        then have "unat i \<noteq> unat j"
          by (simp add: word_unat_eq_iff)
        moreover have "unat i < Suc (unat j)"
          using that(1) suc by (simp add: word_less_nat_alt)
        ultimately have "i < j"
          by (simp add: word_less_nat_alt)
        with I s that(2) sub show ?thesis by auto
      qed
      moreover have "set lg \<subseteq> set l'" using I s sub by auto
      ultimately have "?I (j + 1) s'" using s' by simp
      with None show ?thesis by simp
    qed simp
  qed
  then show "set lg \<subseteq> set lg'"
    and "i < nfiles cfg \<Longrightarrow> \<not> ofstream_good env (shard_name lib cfg k i) \<Longrightarrow>
      ErrorCreatingFile (shard_name lib cfg Train i) \<in> set lg'"
    by auto
qed

lemma open_files_agree:
  assumes "allocates env = allocates env'"
  shows "snd (open_files lib env cfg lg) = snd (open_files lib env' cfg lg')"
    and "ofstream_good env = ofstream_good env' \<Longrightarrow>
      fst (fst (open_files lib env cfg lg)) = fst (fst (open_files lib env' cfg lg'))"
proof -
  have st: "snd (open_shard lib env cfg j s) = snd (open_shard lib env' cfg j t)" for j s t
    by (simp add: open_shard_status assms)
  from for_loop_rel [where R = "\<lambda>s t. True" and body = "open_shard lib env cfg"
      and body' = "open_shard lib env' cfg" and n = "nfiles cfg" and i = 0
      and s = "([], lg)" and t = "([], lg')"] st
  show "snd (open_files lib env cfg lg) = snd (open_files lib env' cfg lg')"
    by (simp add: open_files_def)
  assume good: "ofstream_good env = ofstream_good env'"
  have cr: "fst (fst (open_shard lib env cfg j s)) = fst (fst (open_shard lib env' cfg j t))"
    if "fst s = fst t" for j s t
    using that by (cases s; cases t) (simp add: open_shard_def Let_def assms good split: prod.splits)
  from for_loop_rel [where R = "\<lambda>s t. fst s = fst t" and body = "open_shard lib env cfg"
      and body' = "open_shard lib env' cfg" and n = "nfiles cfg" and i = 0
      and s = "([], lg)" and t = "([], lg')"] st cr
  show "fst (fst (open_files lib env cfg lg)) = fst (fst (open_files lib env' cfg lg'))"
    by (simp add: open_files_def)
qed

section \<open>Properties of the run\<close>

subsection \<open>The ways in which the run ends\<close>

lemma new_vector_bound: "new_vector env r 16 n = None \<Longrightarrow> unat n < 2 ^ 60"
  by (simp add: new_vector_def max_size_def word_le_nat_alt word_less_nat_alt not_less
      split: if_splits)

lemma synthesize_files [simp]:
  "created (synthesize lib env cfg g0 cr lg) = cr"
  "logged (synthesize lib env cfg g0 cr lg) = lg"
  by (simp_all add: synthesize_def stopped_def Let_def split: option.splits prod.splits)

lemma synthesize_cases:
  fixes lib :: "('r, 'g) lib"
  obtains (stops) "status (synthesize lib env cfg g0 cr lg) \<noteq> None"
      and "blocks (synthesize lib env cfg g0 cr lg) = []"
  | (runs) g g' u where "new_vector env (Factors Users) 16 (nusers cfg) = None"
      and "new_vector env (Factors Movies) 16 (nmovies cfg) = None"
      and "nvalidation cfg < nusers cfg"
      and "length (user_table (synthesize lib env cfg g0 cr lg)) = unat (nusers cfg)"
      and "length (movie_table (synthesize lib env cfg g0 cr lg)) = unat (nmovies cfg)"
      and "generate lib cfg (user_table (synthesize lib env cfg g0 cr lg))
             (movie_table (synthesize lib env cfg g0 cr lg)) (degree_cdf lib cfg) g
           = ((g', u, blocks (synthesize lib env cfg g0 cr lg)),
              status (synthesize lib env cfg g0 cr lg))"
proof -
  let ?out = "synthesize lib env cfg g0 cr lg"
  have "(status ?out \<noteq> None \<and> blocks ?out = []) \<or>
     (new_vector env (Factors Users) 16 (nusers cfg) = None \<and>
      new_vector env (Factors Movies) 16 (nmovies cfg) = None \<and>
      nvalidation cfg < nusers cfg \<and>
      length (user_table ?out) = unat (nusers cfg) \<and>
      length (movie_table ?out) = unat (nmovies cfg) \<and>
      (\<exists>g g' u. generate lib cfg (user_table ?out) (movie_table ?out) (degree_cdf lib cfg) g
         = ((g', u, blocks ?out), status ?out)))"
    by (auto simp: synthesize_def stopped_def Let_def split: option.splits prod.splits
        dest: length_latent_factors)
  with that show thesis by blast
qed

lemma main_synthesize:
  "(status (main lib env cfg g0) \<noteq> None \<and> blocks (main lib env cfg g0) = []) \<or>
   (\<exists>cr lg. main lib env cfg g0 = synthesize lib env cfg g0 cr lg)"
  by (auto simp: main_def stopped_def Let_def split: option.splits prod.splits)

lemma main_cases:
  fixes lib :: "('r, 'g) lib"
  obtains (stops) "status (main lib env cfg g0) \<noteq> None"
      and "blocks (main lib env cfg g0) = []"
  | (runs) g g' u where "unat (nusers cfg) < 2 ^ 60" and "unat (nmovies cfg) < 2 ^ 60"
      and "nvalidation cfg < nusers cfg"
      and "length (user_table (main lib env cfg g0)) = unat (nusers cfg)"
      and "length (movie_table (main lib env cfg g0)) = unat (nmovies cfg)"
      and "generate lib cfg (user_table (main lib env cfg g0))
             (movie_table (main lib env cfg g0)) (degree_cdf lib cfg) g
           = ((g', u, blocks (main lib env cfg g0)), status (main lib env cfg g0))"
proof -
  from main_synthesize [of lib env cfg g0] show thesis
  proof
    assume "status (main lib env cfg g0) \<noteq> None \<and> blocks (main lib env cfg g0) = []"
    then show thesis using stops by simp
  next
    assume "\<exists>cr lg. main lib env cfg g0 = synthesize lib env cfg g0 cr lg"
    then obtain cr lg where m: "main lib env cfg g0 = synthesize lib env cfg g0 cr lg"
      by blast
    show thesis
    proof (cases rule: synthesize_cases [of lib env cfg g0 cr lg])
      case stops
      then show thesis using that(1) m by simp
    next
      case (runs g g' u)
      from runs(1,2) have "unat (nusers cfg) < 2 ^ 60" "unat (nmovies cfg) < 2 ^ 60"
        by (blast intro: new_vector_bound)+
      then show thesis using that(2) runs(3-6) m by simp
    qed
  qed
qed

lemma main_inv:
  "blocks_inv lib cfg (user_table (main lib env cfg g0)) (movie_table (main lib env cfg g0))
     (blocks (main lib env cfg g0))"
  and main_full:
  "status (main lib env cfg g0) = None \<Longrightarrow>
     length (blocks (main lib env cfg g0)) = unat (nmovies cfg) \<and>
     blocks_full cfg (blocks (main lib env cfg g0))"
proof -
  let ?out = "main lib env cfg g0"
  have "blocks_inv lib cfg (user_table ?out) (movie_table ?out) (blocks ?out) \<and>
     (status ?out = None \<longrightarrow> length (blocks ?out) = unat (nmovies cfg) \<and>
        blocks_full cfg (blocks ?out))"
  proof (cases rule: main_cases [of lib env cfg g0])
    case stops
    then show ?thesis
      by (auto simp: blocks_inv_def)
  next
    case (runs g g' u)
    from runs(3) have nz: "nusers cfg \<noteq> 0" by auto
    from runs(3) have ne: "nusers cfg - nvalidation cfg \<noteq> 0" by auto
    from runs(6) show ?thesis
      unfolding generate_def by (rule movies_loop_inv [OF nz length_degree_cdf ne])
  qed
  then show "blocks_inv lib cfg (user_table ?out) (movie_table ?out) (blocks ?out)"
    and "status ?out = None \<Longrightarrow> length (blocks ?out) = unat (nmovies cfg) \<and>
      blocks_full cfg (blocks ?out)"
    by simp_all
qed

lemma unat_of_nat_index: "i < 2 ^ 64 \<Longrightarrow> unat (of_nat i :: size_t) = i"
  by (simp add: unat_of_nat)

lemma in_edges_block:
  assumes "e \<in> set (edges out)"
  shows "\<exists>i < length (blocks out). e \<in> set (b_edges (blocks out ! i))"
proof -
  from assms obtain b where "b \<in> set (blocks out)" and e: "e \<in> set (b_edges b)"
    by (auto simp: edges_def)
  then obtain i where "i < length (blocks out)" and "blocks out ! i = b"
    by (auto simp: in_set_conv_nth)
  with e show ?thesis by auto
qed

lemma main_edge_ok:
  assumes "i < length (blocks (main lib env cfg g0))"
    and "e \<in> set (b_edges (blocks (main lib env cfg g0) ! i))"
  shows "edge_ok lib cfg (user_table (main lib env cfg g0)) (movie_table (main lib env cfg g0))
     (of_nat i) e"
  using main_inv [of lib cfg env g0] assms by (simp add: blocks_inv_def block_ok_def)

lemma main_index_bound:
  assumes "i < length (blocks (main lib env cfg g0))"
  shows "i < unat (nmovies cfg)" and "unat (nmovies cfg) < 2 ^ 60" and "unat (nusers cfg) < 2 ^ 60"
    and "nvalidation cfg < nusers cfg"
    and "length (user_table (main lib env cfg g0)) = unat (nusers cfg)"
    and "length (movie_table (main lib env cfg g0)) = unat (nmovies cfg)"
proof -
  from main_inv [of lib cfg env g0] assms show "i < unat (nmovies cfg)"
    by (simp add: blocks_inv_def)
  from assms have ne: "blocks (main lib env cfg g0) \<noteq> []" by auto
  have "unat (nmovies cfg) < 2 ^ 60 \<and> unat (nusers cfg) < 2 ^ 60 \<and> nvalidation cfg < nusers cfg \<and>
      length (user_table (main lib env cfg g0)) = unat (nusers cfg) \<and>
      length (movie_table (main lib env cfg g0)) = unat (nmovies cfg)"
    using ne by (cases rule: main_cases [of lib env cfg g0]) simp_all
  then show "unat (nmovies cfg) < 2 ^ 60" "unat (nusers cfg) < 2 ^ 60"
    "nvalidation cfg < nusers cfg"
    "length (user_table (main lib env cfg g0)) = unat (nusers cfg)"
    "length (movie_table (main lib env cfg g0)) = unat (nmovies cfg)"
    by simp_all
qed

lemma main_block_ok:
  assumes "i < length (blocks (main lib env cfg g0))"
  shows "block_ok lib cfg (user_table (main lib env cfg g0)) (movie_table (main lib env cfg g0))
     (of_nat i) (blocks (main lib env cfg g0) ! i)"
  using main_inv [of lib cfg env g0] assms by (simp add: blocks_inv_def)

lemma main_degrees_sampled:
  assumes "b \<in> set (blocks (main lib env cfg g0))"
  shows "\<exists>g idx g1. multinomial_cdf lib (degree_cdf lib cfg) g = (idx, g1) \<and>
     idx < nusers cfg - nvalidation cfg \<and> b_degree b = idx + 1"
proof (cases rule: main_cases [of lib env cfg g0])
  case stops
  with assms show ?thesis by simp
next
  case (runs g g' u)
  let ?out = "main lib env cfg g0"
  from runs(6) have "for_loop 0 (nmovies cfg)
        (movie_step lib cfg (user_table ?out) (movie_table ?out) (degree_cdf lib cfg)) (g, 0, [])
      = ((g', u, blocks ?out), status ?out)"
    unfolding generate_def .
  from movies_loop_degrees [OF this assms] obtain g2 idx g3
    where m: "multinomial_cdf lib (degree_cdf lib cfg) g2 = (idx, g3)"
      and d: "b_degree b = idx + 1"
    by blast
  from runs(3) have "nusers cfg - nvalidation cfg \<noteq> 0" by auto
  with m length_degree_cdf have "idx < nusers cfg - nvalidation cfg"
    by (rule multinomial_cdf_index)
  with m d show ?thesis by blast
qed

subsection \<open>The run in an environment that serves its requests\<close>

lemma synthesize_served:
  fixes lib :: "('r, 'g) lib"
  assumes "new_vector env (Factors Users) 16 (nusers cfg) = None"
    and "new_vector env (Factors Movies) 16 (nmovies cfg) = None"
    and "\<And>i. i < nusers cfg \<Longrightarrow> resize env (Factor Users i) (D cfg) = None"
    and "\<And>i. i < nmovies cfg \<Longrightarrow> resize env (Factor Movies i) (D cfg) = None"
  shows "nusers cfg \<le> nvalidation cfg \<Longrightarrow>
      status (synthesize lib env cfg g0 cr lg) = Some AssertionFailure"
    and "nvalidation cfg < nusers cfg \<Longrightarrow> allocates env Prob \<Longrightarrow>
      \<exists>g g' u. generate lib cfg (user_table (synthesize lib env cfg g0 cr lg))
             (movie_table (synthesize lib env cfg g0 cr lg)) (degree_cdf lib cfg) g
           = ((g', u, blocks (synthesize lib env cfg g0 cr lg)),
              status (synthesize lib env cfg g0 cr lg))"
proof -
  have "snd (latent_factors lib env cfg Users (nusers cfg) (gen_seed lib 31413 g0)) = None"
    by (rule latent_factors_served) (rule assms(3))
  then obtain ut g1 where u: "latent_factors lib env cfg Users (nusers cfg)
      (gen_seed lib 31413 g0) = ((ut, g1), None)"
    by (cases "latent_factors lib env cfg Users (nusers cfg) (gen_seed lib 31413 g0)") auto
  have "snd (latent_factors lib env cfg Movies (nmovies cfg) g1) = None"
    by (rule latent_factors_served) (rule assms(4))
  then obtain mt g2 where m: "latent_factors lib env cfg Movies (nmovies cfg) g1
      = ((mt, g2), None)"
    by (cases "latent_factors lib env cfg Movies (nmovies cfg) g1") auto
  show "nusers cfg \<le> nvalidation cfg \<Longrightarrow>
      status (synthesize lib env cfg g0 cr lg) = Some AssertionFailure"
    by (simp add: synthesize_def assms(1,2) u m stopped_def not_less [symmetric])
  assume lt: "nvalidation cfg < nusers cfg" and p: "allocates env Prob"
  have le: "nusers cfg - nvalidation cfg \<le> nusers cfg"
    using lt by (simp add: word_sub_le)
  have "unat (nusers cfg) < 2 ^ 60"
    using assms(1) by (rule new_vector_bound)
  with le have "unat (nusers cfg - nvalidation cfg) < 2 ^ 60"
    by (simp add: word_le_nat_alt)
  then have "new_vector env Prob 8 (nusers cfg - nvalidation cfg) = None"
    using p by (simp add: new_vector_def max_size_def word_less_nat_alt)
  then show "\<exists>g g' u. generate lib cfg (user_table (synthesize lib env cfg g0 cr lg))
             (movie_table (synthesize lib env cfg g0 cr lg)) (degree_cdf lib cfg) g
           = ((g', u, blocks (synthesize lib env cfg g0 cr lg)),
              status (synthesize lib env cfg g0 cr lg))"
    using lt by (auto simp: synthesize_def assms(1,2) u m Let_def split: prod.splits)
qed

lemma main_served:
  assumes "setup_served env cfg"
  obtains made lg where "create_directory env (output_folder cfg) = Some made"
    and "open_files lib env cfg
           (if made then [] else [ErrorCreatingDirectory (output_folder cfg)])
         = ((filter (ofstream_good env) (shard_paths lib cfg (unat (nfiles cfg))), lg), None)"
    and "main lib env cfg g0 =
           synthesize lib env cfg g0
             (filter (ofstream_good env) (shard_paths lib cfg (unat (nfiles cfg)))) lg"
proof -
  from assms obtain made where d: "create_directory env (output_folder cfg) = Some made"
    by (auto simp: setup_served_def)
  let ?lg = "if made then [] else [ErrorCreatingDirectory (output_folder cfg)]"
  from assms have v: "new_vector env (Streams Train) 8 (nfiles cfg) = None"
    "new_vector env (Streams Validation) 8 (nfiles cfg) = None"
    by (simp_all add: setup_served_def)
  from assms have "snd (open_files lib env cfg ?lg) = None"
    by (intro open_files_served) (simp add: setup_served_def)
  then obtain cr lg where o: "open_files lib env cfg ?lg = ((cr, lg), None)"
    by (cases "open_files lib env cfg ?lg") auto
  from open_files_created [OF o]
  have cr: "cr = filter (ofstream_good env) (shard_paths lib cfg (unat (nfiles cfg)))" .
  have "main lib env cfg g0 = synthesize lib env cfg g0 cr lg"
    by (simp add: main_def d v o)
  with d o cr that show thesis by simp
qed

lemma main_aborts:
  fixes lib :: "('r, 'g) lib"
  assumes "nusers cfg \<le> nvalidation cfg"
  shows "status (main lib env cfg g0) \<noteq> None" and "blocks (main lib env cfg g0) = []"
    and "setup_served env cfg \<Longrightarrow> status (main lib env cfg g0) = Some AssertionFailure"
proof -
  have "status (main lib env cfg g0) \<noteq> None \<and> blocks (main lib env cfg g0) = []"
    using assms by (cases rule: main_cases [of lib env cfg g0]) simp_all
  then show "status (main lib env cfg g0) \<noteq> None" and "blocks (main lib env cfg g0) = []"
    by simp_all
  assume s: "setup_served env cfg"
  from main_served [OF s, of lib g0] obtain cr lg
    where m: "main lib env cfg g0 = synthesize lib env cfg g0 cr lg"
    by metis
  from s have t: "new_vector env (Factors Users) 16 (nusers cfg) = None"
    "new_vector env (Factors Movies) 16 (nmovies cfg) = None"
    "\<And>i. i < nusers cfg \<Longrightarrow> resize env (Factor Users i) (D cfg) = None"
    "\<And>i. i < nmovies cfg \<Longrightarrow> resize env (Factor Movies i) (D cfg) = None"
    by (simp_all add: setup_served_def)
  from synthesize_served(1) [OF t assms, of lib g0 cr lg] m
  show "status (main lib env cfg g0) = Some AssertionFailure" by simp
qed

text \<open>
  The run reaches the end of \<open>main\<close> when its environment serves its requests,
  \<open>nusers\<close> exceeds \<open>nvalidation\<close> and there is at least one shard.
\<close>

lemma main_finishes:
  fixes lib :: "('r, 'g) lib"
  assumes "setup_served env cfg" and "allocates env Prob" and "nvalidation cfg < nusers cfg"
    and "nfiles cfg \<noteq> 0"
  shows "status (main lib env cfg g0) = None"
proof -
  let ?out = "main lib env cfg g0"
  from main_served [OF assms(1), of lib g0] obtain cr lg
    where m: "main lib env cfg g0 = synthesize lib env cfg g0 cr lg"
    by metis
  from assms(1) have t: "new_vector env (Factors Users) 16 (nusers cfg) = None"
    "new_vector env (Factors Movies) 16 (nmovies cfg) = None"
    "\<And>i. i < nusers cfg \<Longrightarrow> resize env (Factor Users i) (D cfg) = None"
    "\<And>i. i < nmovies cfg \<Longrightarrow> resize env (Factor Movies i) (D cfg) = None"
    by (simp_all add: setup_served_def)
  from synthesize_served(2) [OF t assms(3,2), of lib g0 cr lg] m obtain g g' u where
    run: "for_loop 0 (nmovies cfg)
        (movie_step lib cfg (user_table ?out) (movie_table ?out) (degree_cdf lib cfg)) (g, 0, [])
      = ((g', u, blocks ?out), status ?out)"
    unfolding generate_def by auto
  have nz: "nusers cfg \<noteq> 0" using assms(3) by auto
  have "case status ?out of None \<Rightarrow> True | Some x \<Rightarrow> False"
  proof (rule for_loop_rule [where I = "\<lambda>j s. True" and Q = "\<lambda>s. False", OF run])
    fix j and s s' :: "'g \<times> size_t \<times> 'r block list" and e
    assume b: "movie_step lib cfg (user_table ?out) (movie_table ?out) (degree_cdf lib cfg) j s
      = (s', e)"
    obtain g1 u1 bs1 where s: "s = (g1, u1, bs1)" by (cases s)
    obtain idx g2 where "multinomial_cdf lib (degree_cdf lib cfg) g1 = (idx, g2)"
      by (cases "multinomial_cdf lib (degree_cdf lib cfg) g1")
    from movie_step_walk [OF this nz assms(4)] b s have "e = None" by simp
    then show "case e of None \<Rightarrow> True | Some x \<Rightarrow> False" by simp
  qed simp_all
  then show ?thesis by (cases "status ?out") simp_all
qed

subsection \<open>The noise option\<close>

lemma noise_unused:
  "open_files lib env (cfg\<lparr>noise := x\<rparr>) lg = open_files lib env cfg lg"
  "latent_factors lib env (cfg\<lparr>noise := x\<rparr>) tbl n g = latent_factors lib env cfg tbl n g"
  "degree_cdf lib (cfg\<lparr>noise := x\<rparr>) = degree_cdf lib cfg"
  "generate lib (cfg\<lparr>noise := x\<rparr>) ut mt cdf g = generate lib cfg ut mt cdf g"
proof -
  have "open_shard lib env (cfg\<lparr>noise := x\<rparr>) = open_shard lib env cfg"
    by (simp add: open_shard_def fun_eq_iff Let_def)
  then show "open_files lib env (cfg\<lparr>noise := x\<rparr>) lg = open_files lib env cfg lg"
    by (simp add: open_files_def)
  have "draw_component lib (cfg\<lparr>noise := x\<rparr>) = draw_component lib cfg"
    by (simp add: draw_component_def fun_eq_iff Let_def)
  then have "draw_factor lib env (cfg\<lparr>noise := x\<rparr>) tbl = draw_factor lib env cfg tbl"
    by (intro ext) (simp add: draw_factor_def cong: option.case_cong)
  then show "latent_factors lib env (cfg\<lparr>noise := x\<rparr>) tbl n g = latent_factors lib env cfg tbl n g"
    by (simp add: latent_factors_def)
  have "power_law lib (cfg\<lparr>noise := x\<rparr>) = power_law lib cfg"
    by (simp add: power_law_def fun_eq_iff)
  then show "degree_cdf lib (cfg\<lparr>noise := x\<rparr>) = degree_cdf lib cfg"
    by (simp add: degree_cdf_def Let_def)
  have "train_edge lib (cfg\<lparr>noise := x\<rparr>) = train_edge lib cfg"
    by (simp add: train_edge_def fun_eq_iff Let_def)
  moreover have "validation_edge lib (cfg\<lparr>noise := x\<rparr>) = validation_edge lib cfg"
    by (simp add: validation_edge_def fun_eq_iff Let_def)
  ultimately have "movie_step lib (cfg\<lparr>noise := x\<rparr>) = movie_step lib cfg"
    by (intro ext) (simp add: movie_step_def Let_def cong: prod.case_cong option.case_cong)
  then show "generate lib (cfg\<lparr>noise := x\<rparr>) ut mt cdf g = generate lib cfg ut mt cdf g"
    by (simp add: generate_def)
qed

lemma main_noise_unused: "main lib env (cfg\<lparr>noise := x\<rparr>) g0 = main lib env cfg g0"
proof -
  have "synthesize lib env (cfg\<lparr>noise := x\<rparr>) g0 cr lg = synthesize lib env cfg g0 cr lg"
    for cr lg
    by (simp add: synthesize_def noise_unused Let_def
        cong: option.case_cong prod.case_cong if_cong)
  then show ?thesis
    by (simp add: main_def noise_unused Let_def cong: option.case_cong prod.case_cong if_cong)
qed

subsection \<open>Counting the writes\<close>

lemma count_by_position:
  assumes "\<forall>j < length es. e_sink (es ! j) = (if j < d then Train else Validation)"
    and "length es = d + v"
  shows "length (filter (\<lambda>e. e_sink e = Train) es) = d"
    and "length (filter (\<lambda>e. e_sink e = Validation) es) = v"
proof -
  have t: "\<forall>e \<in> set (take d es). e_sink e = Train"
    using assms by (auto simp: in_set_conv_nth)
  have va: "\<forall>e \<in> set (drop d es). e_sink e = Validation"
    using assms by (auto simp: in_set_conv_nth)
  have es: "es = take d es @ drop d es" by simp
  have "filter (\<lambda>e. e_sink e = Train) es =
      filter (\<lambda>e. e_sink e = Train) (take d es) @ filter (\<lambda>e. e_sink e = Train) (drop d es)"
    by (subst es) (simp only: filter_append)
  also have "filter (\<lambda>e. e_sink e = Train) (take d es) = take d es"
    using t by (simp add: filter_id_conv)
  also have "filter (\<lambda>e. e_sink e = Train) (drop d es) = []"
    using va by (auto simp: filter_empty_conv)
  finally show "length (filter (\<lambda>e. e_sink e = Train) es) = d"
    using assms(2) by simp
  have "filter (\<lambda>e. e_sink e = Validation) es =
      filter (\<lambda>e. e_sink e = Validation) (take d es)
      @ filter (\<lambda>e. e_sink e = Validation) (drop d es)"
    by (subst es) (simp only: filter_append)
  also have "filter (\<lambda>e. e_sink e = Validation) (drop d es) = drop d es"
    using va by (simp add: filter_id_conv)
  also have "filter (\<lambda>e. e_sink e = Validation) (take d es) = []"
    using t by (auto simp: filter_empty_conv)
  finally show "length (filter (\<lambda>e. e_sink e = Validation) es) = v"
    using assms(2) by simp
qed

lemma length_filter_concat:
  "length (filter P (concat (map f bs))) = sum_list (map (\<lambda>b. length (filter P (f b))) bs)"
  by (induction bs) simp_all

lemma sum_list_const: "(\<forall>b \<in> set bs. f b = (c :: nat)) \<Longrightarrow> sum_list (map f bs) = length bs * c"
  by (induction bs) simp_all

lemma main_blocks_count:
  assumes "status (main lib env cfg g0) = None" and "b \<in> set (blocks (main lib env cfg g0))"
  shows "length (filter (\<lambda>e. e_sink e = Train) (b_edges b)) = unat (b_degree b)"
    and "length (filter (\<lambda>e. e_sink e = Validation) (b_edges b)) = unat (nvalidation cfg)"
proof -
  from assms(2) obtain i where i: "i < length (blocks (main lib env cfg g0))"
    and b: "blocks (main lib env cfg g0) ! i = b"
    by (auto simp: in_set_conv_nth)
  from main_block_ok [OF i] b
  have pos: "\<forall>j < length (b_edges b). e_sink (b_edges b ! j) =
      (if j < unat (b_degree b) then Train else Validation)"
    by (simp add: block_ok_def sink_at_def)
  from main_full [OF assms(1)] assms(2)
  have len: "length (b_edges b) = unat (b_degree b) + unat (nvalidation cfg)"
    by (simp add: blocks_full_def)
  from pos len show "length (filter (\<lambda>e. e_sink e = Train) (b_edges b)) = unat (b_degree b)"
    by (rule count_by_position)
  from pos len
  show "length (filter (\<lambda>e. e_sink e = Validation) (b_edges b)) = unat (nvalidation cfg)"
    by (rule count_by_position)
qed

subsection \<open>The cursor in closed form\<close>

lemma advance_no_wrap:
  assumes "u < n" and "unat (n :: size_t) < 2 ^ 60"
  shows "unat ((u + 2654435761) mod n) = (unat u + 2654435761) mod unat n"
proof -
  have "unat u < 2 ^ 60"
    using assms by (simp add: word_less_nat_alt)
  then have "unat u + unat (2654435761 :: size_t) < 2 ^ 64"
    by simp
  then have "unat (u + 2654435761) = unat u + unat (2654435761 :: size_t)"
    by (simp add: unat_add_lem [THEN iffD1])
  then show ?thesis
    by (simp add: unat_mod)
qed

lemma cursor_chain_nth:
  assumes "cursor_chain n u us" and "u < n" and "unat n < 2 ^ 60" and "k < length us"
  shows "unat (us ! k) = (unat u + Suc k * 2654435761) mod unat n"
  using assms
proof (induction us arbitrary: u k)
  case Nil
  then show ?case by simp
next
  case (Cons v vs)
  have v: "v = (u + 2654435761) mod n" and ch: "cursor_chain n v vs"
    using Cons.prems(1) unfolding cursor_chain.simps by blast+
  have nv: "unat v = (unat u + 2654435761) mod unat n"
    unfolding v using Cons.prems(2,3) by (rule advance_no_wrap)
  have "0 < n" using Cons.prems(2) by (simp add: word_neq_0_conv [symmetric]) auto
  then have vn: "v < n" unfolding v by (rule word_mod_less_divisor)
  show ?case
  proof (cases k)
    case 0
    with nv show ?thesis by simp
  next
    case (Suc j)
    with Cons.prems(4) have "j < length vs" by simp
    from Cons.IH [OF ch vn Cons.prems(3) this]
    have "unat (vs ! j) = ((unat u + 2654435761) mod unat n + Suc j * 2654435761) mod unat n"
      by (simp add: nv)
    also have "\<dots> = (unat u + 2654435761 + Suc j * 2654435761) mod unat n"
      by (rule mod_add_left_eq)
    finally show ?thesis
      using Suc by (simp add: algebra_simps)
  qed
qed

lemma main_cursor_chain:
  "cursor_chain (nusers cfg) 0 (map e_user (edges (main lib env cfg g0)))"
  using main_inv [of lib cfg env g0] by (simp add: blocks_inv_def edges_def)

lemma cursor_chain_prev:
  assumes "cursor_chain n u us" and "k < length us"
  shows "us ! k = ((u # us) ! k + 2654435761) mod n"
  using assms
proof (induction us arbitrary: u k)
  case Nil
  then show ?case by simp
next
  case (Cons v vs)
  have v: "v = (u + 2654435761) mod n" and ch: "cursor_chain n v vs"
    using Cons.prems(1) unfolding cursor_chain.simps by blast+
  show ?case
  proof (cases k)
    case 0
    with v show ?thesis by simp
  next
    case (Suc j)
    with Cons.prems(2) have "j < length vs" by simp
    from Cons.IH [OF ch this] Suc show ?thesis by simp
  qed
qed

lemma main_cursor_prev:
  assumes "k < length (edges (main lib env cfg g0))"
  shows "unat (e_user (edges (main lib env cfg g0) ! k)) =
     (unat ((0 # map e_user (edges (main lib env cfg g0))) ! k) + 2654435761) mod unat (nusers cfg)"
proof -
  let ?out = "main lib env cfg g0"
  let ?us = "map e_user (edges ?out)"
  from assms have "edges ?out \<noteq> []" by auto
  then have "blocks ?out \<noteq> []" by (auto simp: edges_def)
  then have i: "0 < length (blocks ?out)" by simp
  note b = main_index_bound [OF i]
  have pos: "0 < nusers cfg"
    using b(4) by (simp add: word_neq_0_conv [symmetric]) auto
  have k: "k < length ?us" using assms by simp
  have prev: "(0 # ?us) ! k < nusers cfg"
  proof (cases k)
    case 0
    with pos show ?thesis by simp
  next
    case (Suc j)
    with assms have j: "j < length (edges ?out)" by simp
    then have "edges ?out ! j \<in> set (edges ?out)" by simp
    then obtain i' where "i' < length (blocks ?out)"
      and "edges ?out ! j \<in> set (b_edges (blocks ?out ! i'))"
      using in_edges_block by blast
    then have "e_user (edges ?out ! j) < nusers cfg"
      using main_edge_ok [of i' lib env cfg g0 "edges ?out ! j"] by (simp add: edge_ok_def)
    with Suc j show ?thesis by simp
  qed
  have "?us ! k = ((0 # ?us) ! k + 2654435761) mod nusers cfg"
    using main_cursor_chain k by (rule cursor_chain_prev)
  then have "unat (?us ! k) = unat (((0 # ?us) ! k + 2654435761) mod nusers cfg)"
    by simp
  also have "\<dots> = (unat ((0 # ?us) ! k) + 2654435761) mod unat (nusers cfg)"
    using prev b(3) by (rule advance_no_wrap)
  finally show ?thesis using assms by simp
qed

lemma main_user_id:
  assumes "k < length (edges (main lib env cfg g0))"
  shows "unat (e_user (edges (main lib env cfg g0) ! k)) =
       (Suc k * 2654435761) mod unat (nusers cfg)"
    and "0 < unat (nusers cfg)"
proof -
  let ?out = "main lib env cfg g0"
  from assms have "edges ?out \<noteq> []" by auto
  then have "blocks ?out \<noteq> []" by (auto simp: edges_def)
  then have i: "0 < length (blocks ?out)" by simp
  note b = main_index_bound [OF i]
  have pos: "0 < nusers cfg"
    using b(4) by (simp add: word_neq_0_conv [symmetric]) auto
  then show "0 < unat (nusers cfg)"
    by (simp add: word_less_nat_alt)
  have ch: "cursor_chain (nusers cfg) 0 (map e_user (edges ?out))"
    by (rule main_cursor_chain)
  have k: "k < length (map e_user (edges ?out))" using assms by simp
  from cursor_chain_nth [OF ch pos b(3) k] assms
  show "unat (e_user (edges ?out ! k)) = (Suc k * 2654435761) mod unat (nusers cfg)"
    by simp
qed

text \<open>
  When \<open>gcd 2654435761 nusers\<close> exceeds 1 the user id 1 exists and is never written.
\<close>

lemma user_one_never_rated:
  assumes "1 < gcd 2654435761 (unat (nusers cfg))"
    and "e \<in> set (edges (main lib env cfg g0))"
  shows "1 < unat (nusers cfg) \<and> unat (e_user e) \<noteq> 1"
proof -
  from assms(2) obtain k where k: "k < length (edges (main lib env cfg g0))"
    and e: "edges (main lib env cfg g0) ! k = e"
    by (auto simp: in_set_conv_nth)
  have "unat (nusers cfg) \<noteq> 1"
    using assms(1) by auto
  with main_user_id(2) [OF k] have n: "1 < unat (nusers cfg)" by simp
  have "gcd 2654435761 (unat (nusers cfg)) dvd Suc k * 2654435761"
    by simp
  then have "gcd 2654435761 (unat (nusers cfg)) dvd (Suc k * 2654435761) mod unat (nusers cfg)"
    by (rule dvd_mod) simp
  then have "gcd 2654435761 (unat (nusers cfg)) dvd unat (e_user e)"
    using main_user_id(1) [OF k] e by simp
  then have "unat (e_user e) \<noteq> 1"
    using assms(1) by auto
  with n show ?thesis by simp
qed

subsection \<open>The files opened and the log\<close>

lemma main_created:
  assumes "setup_served env cfg"
  shows "created (main lib env cfg g0) =
     filter (ofstream_good env) (shard_paths lib cfg (unat (nfiles cfg)))"
  using main_served [OF assms, of lib g0] by (metis synthesize_files(1))

lemma main_logged:
  assumes "setup_served env cfg"
  shows "create_directory env (output_folder cfg) = Some False \<Longrightarrow>
      ErrorCreatingDirectory (output_folder cfg) \<in> set (logged (main lib env cfg g0))"
    and "i < nfiles cfg \<Longrightarrow> \<not> ofstream_good env (shard_name lib cfg k i) \<Longrightarrow>
      ErrorCreatingFile (shard_name lib cfg Train i) \<in> set (logged (main lib env cfg g0))"
proof -
  from main_served [OF assms, of lib g0] obtain made cr lg
    where d: "create_directory env (output_folder cfg) = Some made"
      and o: "open_files lib env cfg
           (if made then [] else [ErrorCreatingDirectory (output_folder cfg)]) = ((cr, lg), None)"
      and m: "main lib env cfg g0 = synthesize lib env cfg g0 cr lg"
    by metis
  have l: "logged (main lib env cfg g0) = lg"
    by (simp add: m)
  show "create_directory env (output_folder cfg) = Some False \<Longrightarrow>
      ErrorCreatingDirectory (output_folder cfg) \<in> set (logged (main lib env cfg g0))"
    using open_files_logged(1) [OF o] d by (auto simp: l)
  show "i < nfiles cfg \<Longrightarrow> \<not> ofstream_good env (shard_name lib cfg k i) \<Longrightarrow>
      ErrorCreatingFile (shard_name lib cfg Train i) \<in> set (logged (main lib env cfg g0))"
    using open_files_logged(2) [OF o] by (simp add: l)
qed

subsection \<open>Two runs\<close>

lemma synthesize_generation:
  assumes "gen_seed lib 31413 g0 = gen_seed lib 31413 g0'" and "allocates env = allocates env'"
  shows "synthesize lib env' cfg g0' cr' lg' =
     (synthesize lib env cfg g0 cr lg)\<lparr>logged := lg', created := cr'\<rparr>"
proof -
  have nv: "new_vector env' = new_vector env"
    by (intro ext) (simp add: new_vector_def assms(2))
  have "resize env' = resize env"
    by (intro ext) (simp add: resize_def assms(2))
  then have "draw_factor lib env' cfg = draw_factor lib env cfg"
    by (intro ext) (simp add: draw_factor_def)
  then have lf: "latent_factors lib env' cfg = latent_factors lib env cfg"
    by (intro ext) (simp add: latent_factors_def)
  show ?thesis
    by (simp add: synthesize_def nv lf assms(1) stopped_def Let_def
        split: option.splits prod.splits)
qed

text \<open>
  What a run computes depends on the state in which the constructor left the
  generator only through \<^verbatim>\<open>gen.seed(31413)\<close>, and on the environment only through
  the heap, through whether \<^verbatim>\<open>create_directory\<close> throws, and, for the files
  created, through the streams that are good.
\<close>

lemma main_generation:
  assumes "gen_seed lib 31413 g0 = gen_seed lib 31413 g0'" and "allocates env = allocates env'"
    and "(create_directory env (output_folder cfg) = None) =
      (create_directory env' (output_folder cfg) = None)"
  shows "status (main lib env cfg g0) = status (main lib env' cfg g0')"
    and "blocks (main lib env cfg g0) = blocks (main lib env' cfg g0')"
    and "user_table (main lib env cfg g0) = user_table (main lib env' cfg g0')"
    and "movie_table (main lib env cfg g0) = movie_table (main lib env' cfg g0')"
    and "ofstream_good env = ofstream_good env' \<Longrightarrow>
      created (main lib env cfg g0) = created (main lib env' cfg g0')"
proof -
  have nv: "new_vector env' = new_vector env"
    by (intro ext) (simp add: new_vector_def assms(2))
  have "status (main lib env cfg g0) = status (main lib env' cfg g0') \<and>
     blocks (main lib env cfg g0) = blocks (main lib env' cfg g0') \<and>
     user_table (main lib env cfg g0) = user_table (main lib env' cfg g0') \<and>
     movie_table (main lib env cfg g0) = movie_table (main lib env' cfg g0') \<and>
     (ofstream_good env = ofstream_good env' \<longrightarrow>
        created (main lib env cfg g0) = created (main lib env' cfg g0'))"
  proof (cases "create_directory env (output_folder cfg)")
    case None
    with assms(3) have "create_directory env' (output_folder cfg) = None" by simp
    with None show ?thesis by (simp add: main_def stopped_def)
  next
    case (Some made)
    with assms(3) obtain made' where Some': "create_directory env' (output_folder cfg) = Some made'"
      by auto
    let ?lg = "if made then [] else [ErrorCreatingDirectory (output_folder cfg)]"
    let ?lg' = "if made' then [] else [ErrorCreatingDirectory (output_folder cfg)]"
    obtain cr l e where o: "open_files lib env cfg ?lg = ((cr, l), e)"
      by (cases "open_files lib env cfg ?lg") auto
    obtain cr' l' e' where o': "open_files lib env' cfg ?lg' = ((cr', l'), e')"
      by (cases "open_files lib env' cfg ?lg'") auto
    from open_files_agree(1) [OF assms(2), of lib cfg ?lg ?lg'] o o' have e: "e' = e"
      by simp
    have c: "ofstream_good env = ofstream_good env' \<Longrightarrow> cr' = cr"
      using open_files_agree(2) [OF assms(2), of lib cfg ?lg ?lg'] o o' by simp
    note sg = synthesize_generation [OF assms(1,2), of cfg cr' l' cr l]
    show ?thesis
      using c o o'
      by (cases made; cases made')
         (simp_all add: main_def Let_def Some Some' nv e sg stopped_def split: option.splits)
  qed
  then show "status (main lib env cfg g0) = status (main lib env' cfg g0')"
    and "blocks (main lib env cfg g0) = blocks (main lib env' cfg g0')"
    and "user_table (main lib env cfg g0) = user_table (main lib env' cfg g0')"
    and "movie_table (main lib env cfg g0) = movie_table (main lib env' cfg g0')"
    and "ofstream_good env = ofstream_good env' \<Longrightarrow>
      created (main lib env cfg g0) = created (main lib env' cfg g0')"
    by simp_all
qed

section \<open>The run of the concrete instance\<close>

lemma replicate_numeral_eval: "replicate (numeral k) x = x # replicate (pred_numeral k) x"
  by (simp add: numeral_eq_Suc)

lemma list_update_numeral_eval: "(x # xs)[numeral k := y] = x # xs[pred_numeral k := y]"
  by (simp add: numeral_eq_Suc)

lemmas eval_simps = for_loop_eval replicate_numeral_eval list_update_numeral_eval

lemma demo_cfg_fields:
  "output_folder demo_cfg = ''synthetic_data''" "nfiles demo_cfg = 2" "D demo_cfg = 2"
  "nusers demo_cfg = 10" "nmovies demo_cfg = 3" "nvalidation demo_cfg = 1"
  by (simp_all add: demo_cfg_def)

lemma demo_env_fields:
  "create_directory demo_env p = Some True" "ofstream_good demo_env p = True"
  "allocates demo_env r = True"
  by (simp_all add: demo_env_def)

lemma demo_seed: "gen_seed demo_lib s g = unat s"
  by (simp add: demo_lib_def)

lemma demo_tostr: "tostr demo_lib i = decimal (unat i)"
  by (simp add: demo_lib_def)

lemma demo_dot: "d_dot demo_lib xs ys = sum_list (map2 (*) xs ys)"
  by (simp add: demo_lib_def)

lemma demo_show: "d_show demo_lib r = (if r < 0 then ''-'' else '''') @ decimal (nat \<lfloor>\<bar>r\<bar>\<rfloor>)"
  by (simp add: demo_lib_def)

lemma demo_user_factors:
  "latent_factors demo_lib demo_env demo_cfg Users 10 31413 =
     (([[1, 0], [- 1, - 1], [- 2, - 1], [- 3, - 1], [- 1, 0], [- 1, 0], [- 3, 1],
        [2, - 2], [- 1, - 1], [1, - 3]], 12868), None)"
  by (simp add: latent_factors_def eval_simps draw_factor_def draw_component_def
      resize_def max_size_def demo_env_fields demo_lib_def demo_cfg_def)

lemma demo_movie_factors:
  "latent_factors demo_lib demo_env demo_cfg Movies 3 12868 =
     (([[- 1, - 3], [0, 1], [3, - 2]], 56157), None)"
  by (simp add: latent_factors_def eval_simps draw_factor_def draw_component_def
      resize_def max_size_def demo_env_fields demo_lib_def demo_cfg_def)

lemma demo_cdf:
  "degree_cdf demo_lib demo_cfg =
     [6350400 / 9778141, 7938000 / 9778141, 8643600 / 9778141, 9040500 / 9778141,
      9294516 / 9778141, 9470916 / 9778141, 9600516 / 9778141, 9699741 / 9778141, 1]"
  by (simp add: degree_cdf_def eval_simps power_law_def pdf2cdf_def demo_lib_def demo_cfg_def)

lemma demo_generate:
  "generate demo_lib demo_cfg
     [[1, 0], [- 1, - 1], [- 2, - 1], [- 3, - 1], [- 1, 0], [- 1, 0], [- 3, 1],
       [2, - 2], [- 1, - 1], [1, - 3]]
     [[- 1, - 3], [0, 1], [3, - 2]]
     [6350400 / 9778141, 7938000 / 9778141, 8643600 / 9778141, 9040500 / 9778141,
      9294516 / 9778141, 9470916 / 9778141, 9600516 / 9778141, 9699741 / 9778141, 1]
     56157 =
   ((30749, 7,
   [\<lparr>b_movie = 0, b_degree = 1,
       b_edges =
         [\<lparr>e_sink = Train, e_file = 1, e_user = 1, e_item = 10,
             e_rating = 4\<rparr>,
          \<lparr>e_sink = Validation, e_file = 0, e_user = 2, e_item = 10,
             e_rating = 5\<rparr>]\<rparr>,
    \<lparr>b_movie = 1, b_degree = 2,
       b_edges =
         [\<lparr>e_sink = Train, e_file = 1, e_user = 3, e_item = 11,
             e_rating = - 1\<rparr>,
          \<lparr>e_sink = Train, e_file = 0, e_user = 4, e_item = 11,
             e_rating = 0\<rparr>,
          \<lparr>e_sink = Validation, e_file = 1, e_user = 5, e_item = 11,
             e_rating = 0\<rparr>]\<rparr>,
    \<lparr>b_movie = 2, b_degree = 1,
       b_edges =
         [\<lparr>e_sink = Train, e_file = 0, e_user = 6, e_item = 12,
             e_rating = - 11\<rparr>,
          \<lparr>e_sink = Validation, e_file = 1, e_user = 7, e_item = 12,
             e_rating = 10\<rparr>]\<rparr>]),
  None)"
  by (simp add: generate_def for_loop_eval movie_step_def multinomial_cdf_def
      train_edge_def validation_edge_def demo_lib_def demo_cfg_def)

lemma demo_open_files:
  "open_files demo_lib demo_env demo_cfg [] =
     (([''synthetic_data/graph_0.tsv'', ''synthetic_data/graph_0.tsv.validate'',
        ''synthetic_data/graph_1.tsv'', ''synthetic_data/graph_1.tsv.validate''], []), None)"
  by (simp add: open_files_def open_shard_def for_loop_eval demo_cfg_fields demo_env_fields
      demo_tostr show_size_t_def decimal.simps)

lemma demo_run:
  "main demo_lib demo_env demo_cfg 0 =
   \<lparr>status = None, logged = [],
    created =
      [''synthetic_data/graph_0.tsv'', ''synthetic_data/graph_0.tsv.validate'',
       ''synthetic_data/graph_1.tsv'', ''synthetic_data/graph_1.tsv.validate''],
    user_table =
      [[1, 0], [- 1, - 1], [- 2, - 1], [- 3, - 1], [- 1, 0], [- 1, 0],
       [- 3, 1], [2, - 2], [- 1, - 1], [1, - 3]],
    movie_table = [[- 1, - 3], [0, 1], [3, - 2]],
    blocks =
      [\<lparr>b_movie = 0, b_degree = 1,
          b_edges =
            [\<lparr>e_sink = Train, e_file = 1, e_user = 1, e_item = 10, e_rating = 4\<rparr>,
             \<lparr>e_sink = Validation, e_file = 0, e_user = 2, e_item = 10, e_rating = 5\<rparr>]\<rparr>,
       \<lparr>b_movie = 1, b_degree = 2,
          b_edges =
            [\<lparr>e_sink = Train, e_file = 1, e_user = 3, e_item = 11, e_rating = - 1\<rparr>,
             \<lparr>e_sink = Train, e_file = 0, e_user = 4, e_item = 11, e_rating = 0\<rparr>,
             \<lparr>e_sink = Validation, e_file = 1, e_user = 5, e_item = 11, e_rating = 0\<rparr>]\<rparr>,
       \<lparr>b_movie = 2, b_degree = 1,
          b_edges =
            [\<lparr>e_sink = Train, e_file = 0, e_user = 6, e_item = 12, e_rating = - 11\<rparr>,
             \<lparr>e_sink = Validation, e_file = 1, e_user = 7, e_item = 12, e_rating = 10\<rparr>]\<rparr>]\<rparr>"
  by (simp add: main_def synthesize_def new_vector_def max_size_def demo_cfg_fields
      demo_env_fields demo_seed demo_open_files demo_user_factors demo_movie_factors demo_cdf
      demo_generate)

lemma few_users_cfg_fields:
  "output_folder few_users_cfg = ''synthetic_data''" "nfiles few_users_cfg = 2"
  "D few_users_cfg = 2" "nusers few_users_cfg = 1" "nmovies few_users_cfg = 3"
  "nvalidation few_users_cfg = 2"
  by (simp_all add: few_users_cfg_def demo_cfg_def)

lemma demo_shard_paths:
  "shard_paths demo_lib demo_cfg 2 =
     [''synthetic_data/graph_0.tsv'', ''synthetic_data/graph_0.tsv.validate'',
      ''synthetic_data/graph_1.tsv'', ''synthetic_data/graph_1.tsv.validate'']"
  "shard_paths demo_lib few_users_cfg 2 =
     [''synthetic_data/graph_0.tsv'', ''synthetic_data/graph_0.tsv.validate'',
      ''synthetic_data/graph_1.tsv'', ''synthetic_data/graph_1.tsv.validate'']"
  by (simp_all add: shard_paths_def shard_name_def demo_tostr show_size_t_def decimal.simps
      demo_cfg_fields few_users_cfg_fields numeral_2_eq_2)

lemma few_users_run:
  "main demo_lib demo_env few_users_cfg 0 =
   \<lparr>status = Some AssertionFailure, logged = [],
    created =
      [''synthetic_data/graph_0.tsv'', ''synthetic_data/graph_0.tsv.validate'',
       ''synthetic_data/graph_1.tsv'', ''synthetic_data/graph_1.tsv.validate''],
    user_table = [[1, 0]], movie_table = [[- 1, - 1], [- 2, - 1], [- 3, - 1]], blocks = []\<rparr>"
proof -
  have o: "open_files demo_lib demo_env few_users_cfg [] =
     (([''synthetic_data/graph_0.tsv'', ''synthetic_data/graph_0.tsv.validate'',
        ''synthetic_data/graph_1.tsv'', ''synthetic_data/graph_1.tsv.validate''], []), None)"
    by (simp add: open_files_def open_shard_def for_loop_eval few_users_cfg_fields
        demo_env_fields demo_tostr show_size_t_def decimal.simps)
  have u: "latent_factors demo_lib demo_env few_users_cfg Users 1 31413 = (([[1, 0]], 15997), None)"
    by (simp add: latent_factors_def eval_simps draw_factor_def draw_component_def
        resize_def max_size_def demo_env_fields demo_lib_def few_users_cfg_def demo_cfg_def)
  have m: "latent_factors demo_lib demo_env few_users_cfg Movies 3 15997 =
     (([[- 1, - 1], [- 2, - 1], [- 3, - 1]], 23606), None)"
    by (simp add: latent_factors_def eval_simps draw_factor_def draw_component_def
        resize_def max_size_def demo_env_fields demo_lib_def few_users_cfg_def demo_cfg_def)
  show ?thesis
    by (simp add: main_def synthesize_def stopped_def new_vector_def max_size_def
        few_users_cfg_fields demo_env_fields demo_seed o u m)
qed

text \<open>
  Runs that end before the files are opened or the factors drawn: a vector longer
  than \<^verbatim>\<open>max_size()\<close> (of streams at line 84, of factors at line 108), and a heap
  that does not serve the fourth user factor.
\<close>

lemma length_error_runs:
  "main demo_lib demo_env (demo_cfg\<lparr>nfiles := 2 ^ 60\<rparr>) 0 =
     \<lparr>status = Some LengthError, logged = [], created = [], user_table = [],
      movie_table = [], blocks = []\<rparr>"
  "main demo_lib demo_env (demo_cfg\<lparr>nusers := 2 ^ 59, nvalidation := 2 ^ 59\<rparr>) 0 =
     \<lparr>status = Some LengthError, logged = [],
      created =
        [''synthetic_data/graph_0.tsv'', ''synthetic_data/graph_0.tsv.validate'',
         ''synthetic_data/graph_1.tsv'', ''synthetic_data/graph_1.tsv.validate''],
      user_table = [], movie_table = [], blocks = []\<rparr>"
proof -
  show "main demo_lib demo_env (demo_cfg\<lparr>nfiles := 2 ^ 60\<rparr>) 0 =
     \<lparr>status = Some LengthError, logged = [], created = [], user_table = [],
      movie_table = [], blocks = []\<rparr>"
    by (simp add: main_def stopped_def new_vector_def max_size_def demo_env_fields)
  have "open_files demo_lib demo_env (demo_cfg\<lparr>nusers := 2 ^ 59, nvalidation := 2 ^ 59\<rparr>) [] =
     (([''synthetic_data/graph_0.tsv'', ''synthetic_data/graph_0.tsv.validate'',
        ''synthetic_data/graph_1.tsv'', ''synthetic_data/graph_1.tsv.validate''], []), None)"
    by (simp add: open_files_def open_shard_def for_loop_eval demo_cfg_fields
        demo_env_fields demo_tostr show_size_t_def decimal.simps)
  then show "main demo_lib demo_env (demo_cfg\<lparr>nusers := 2 ^ 59, nvalidation := 2 ^ 59\<rparr>) 0 =
     \<lparr>status = Some LengthError, logged = [],
      created =
        [''synthetic_data/graph_0.tsv'', ''synthetic_data/graph_0.tsv.validate'',
         ''synthetic_data/graph_1.tsv'', ''synthetic_data/graph_1.tsv.validate''],
      user_table = [], movie_table = [], blocks = []\<rparr>"
    by (simp add: main_def synthesize_def stopped_def new_vector_def max_size_def
        demo_cfg_fields demo_env_fields)
qed

lemma bad_alloc_run:
  "main demo_lib (demo_env\<lparr>allocates := \<lambda>r. r \<noteq> Factor Users 3\<rparr>) demo_cfg 0 =
     \<lparr>status = Some BadAlloc, logged = [],
      created =
        [''synthetic_data/graph_0.tsv'', ''synthetic_data/graph_0.tsv.validate'',
         ''synthetic_data/graph_1.tsv'', ''synthetic_data/graph_1.tsv.validate''],
      user_table = [], movie_table = [], blocks = []\<rparr>"
proof -
  let ?env = "demo_env\<lparr>allocates := \<lambda>r. r \<noteq> Factor Users 3\<rparr>"
  have o: "open_files demo_lib ?env demo_cfg [] =
     (([''synthetic_data/graph_0.tsv'', ''synthetic_data/graph_0.tsv.validate'',
        ''synthetic_data/graph_1.tsv'', ''synthetic_data/graph_1.tsv.validate''], []), None)"
    by (simp add: open_files_def open_shard_def for_loop_eval demo_cfg_fields
        demo_env_fields demo_tostr show_size_t_def decimal.simps)
  have u: "latent_factors demo_lib ?env demo_cfg Users 10 31413 =
     (([[1, 0], [- 1, - 1], [- 2, - 1], [], [], [], [], [], [], []], 33663), Some BadAlloc)"
    by (simp add: latent_factors_def eval_simps draw_factor_def draw_component_def
        resize_def max_size_def demo_lib_def demo_cfg_def)
  show ?thesis
    by (simp add: main_def synthesize_def stopped_def new_vector_def max_size_def
        demo_cfg_fields demo_env_fields demo_seed o u)
qed

lemma demo_served: "setup_served demo_env demo_cfg" "setup_served demo_env few_users_cfg"
  by (simp_all add: setup_served_def new_vector_def resize_def max_size_def demo_env_fields
      demo_cfg_fields few_users_cfg_fields)

section \<open>The claims\<close>

text \<open>
  C1 as stated fails: with \<open>nusers = 1\<close> and \<open>nvalidation = 2\<close> the run aborts on
  the assertion, but the four shard files have been created by then.
\<close>

theorem files_created_before_abort:
  "nusers few_users_cfg \<le> nvalidation few_users_cfg \<and>
   status (main demo_lib demo_env few_users_cfg 0) = Some AssertionFailure \<and>
   created (main demo_lib demo_env few_users_cfg 0) =
     [''synthetic_data/graph_0.tsv'', ''synthetic_data/graph_0.tsv.validate'',
      ''synthetic_data/graph_1.tsv'', ''synthetic_data/graph_1.tsv.validate'']"
  by (simp add: few_users_run few_users_cfg_fields)

text \<open>
  C1, amended. With \<open>nusers \<le> nvalidation\<close> the run aborts without having made any
  write, so no shard file receives a byte. When the environment serves every request
  made before line 129, the run aborts on the assertion of that line, and the shard
  files that could be opened have been created by then.
\<close>

theorem abort_without_records:
  assumes "nusers cfg \<le> nvalidation cfg"
  shows "status (main lib env cfg init) \<noteq> None \<and>
     edges (main lib env cfg init) = [] \<and>
     (\<forall>k i. shard_bytes lib env cfg (main lib env cfg init) k i = []) \<and>
     (setup_served env cfg \<longrightarrow>
        status (main lib env cfg init) = Some AssertionFailure \<and>
        created (main lib env cfg init) =
          filter (ofstream_good env) (shard_paths lib cfg (unat (nfiles cfg))))"
proof -
  note a = main_aborts [OF assms, where lib = lib and env = env and ?g0.0 = init]
  have e: "edges (main lib env cfg init) = []"
    using a(2) by (simp add: edges_def)
  then have "\<forall>k i. shard_bytes lib env cfg (main lib env cfg init) k i = []"
    by (simp add: shard_bytes_def)
  with a(1,3) e show ?thesis
    by (simp add: main_created)
qed

theorem abort_without_records_witness:
  "nusers few_users_cfg \<le> nvalidation few_users_cfg \<and>
   setup_served demo_env few_users_cfg \<and>
   status (main demo_lib demo_env few_users_cfg 0) = Some AssertionFailure \<and>
   edges (main demo_lib demo_env few_users_cfg 0) = [] \<and>
   shard_bytes demo_lib demo_env few_users_cfg (main demo_lib demo_env few_users_cfg 0) Train 0 = [] \<and>
   created (main demo_lib demo_env few_users_cfg 0) =
     [''synthetic_data/graph_0.tsv'', ''synthetic_data/graph_0.tsv.validate'',
      ''synthetic_data/graph_1.tsv'', ''synthetic_data/graph_1.tsv.validate'']"
  using abort_without_records [where lib = demo_lib and env = demo_env and cfg = few_users_cfg
      and init = 0]
  by (simp add: few_users_cfg_fields demo_served demo_env_fields demo_shard_paths)

text \<open>
  C2. The rating of every write is the dot product of the entry of the user table at
  the written user id and the entry of the movie table at the written item id less
  \<open>nusers\<close> (both indices are within the tables), and the run is the same whatever
  the value of the \<open>noise\<close> option.
\<close>

theorem rating_is_dot_product:
  "main lib env (cfg\<lparr>noise := x\<rparr>) init = main lib env cfg init \<and>
   (\<forall>e \<in> set (edges (main lib env cfg init)).
      unat (e_user e) < length (user_table (main lib env cfg init)) \<and>
      unat (e_item e - nusers cfg) < length (movie_table (main lib env cfg init)) \<and>
      e_rating e =
        d_dot lib (user_table (main lib env cfg init) ! unat (e_user e))
          (movie_table (main lib env cfg init) ! unat (e_item e - nusers cfg)))"
proof
  show "main lib env (cfg\<lparr>noise := x\<rparr>) init = main lib env cfg init"
    by (rule main_noise_unused)
next
  let ?out = "main lib env cfg init"
  show "\<forall>e \<in> set (edges ?out).
      unat (e_user e) < length (user_table ?out) \<and>
      unat (e_item e - nusers cfg) < length (movie_table ?out) \<and>
      e_rating e = d_dot lib (user_table ?out ! unat (e_user e))
          (movie_table ?out ! unat (e_item e - nusers cfg))"
  proof
    fix e
    assume "e \<in> set (edges ?out)"
    then obtain i where i: "i < length (blocks ?out)" and e: "e \<in> set (b_edges (blocks ?out ! i))"
      using in_edges_block by blast
    note b = main_index_bound [OF i]
    from main_edge_ok [OF i e]
    have item: "e_item e = of_nat i + nusers cfg" and user: "e_user e < nusers cfg"
      and rating: "e_rating e = d_dot lib (user_table ?out ! unat (e_user e))
          (movie_table ?out ! unat (of_nat i :: size_t))"
      by (simp_all add: edge_ok_def)
    have m: "e_item e - nusers cfg = of_nat i"
      using item by simp
    have "unat (of_nat i :: size_t) = i"
      using b(1,2) by (simp add: unat_of_nat_index)
    with b(1) have "unat (e_item e - nusers cfg) < length (movie_table ?out)"
      by (simp add: m b(6))
    moreover have "unat (e_user e) < length (user_table ?out)"
      using user by (simp add: b(5) word_less_nat_alt)
    ultimately show "unat (e_user e) < length (user_table ?out) \<and>
      unat (e_item e - nusers cfg) < length (movie_table ?out) \<and>
      e_rating e = d_dot lib (user_table ?out ! unat (e_user e))
          (movie_table ?out ! unat (e_item e - nusers cfg))"
      using rating m by simp
  qed
qed

theorem rating_is_dot_product_witness:
  "main demo_lib demo_env (demo_cfg\<lparr>noise := 5\<rparr>) 0 = main demo_lib demo_env demo_cfg 0 \<and>
   \<lparr>e_sink = Train, e_file = 0, e_user = 6, e_item = 12, e_rating = - 11\<rparr>
     \<in> set (edges (main demo_lib demo_env demo_cfg 0)) \<and>
   (- 11 :: rat) = d_dot demo_lib [- 3, 1] [3, - 2] \<and>
   user_table (main demo_lib demo_env demo_cfg 0) ! unat (6 :: size_t) = [- 3, 1] \<and>
   movie_table (main demo_lib demo_env demo_cfg 0) ! unat (12 - nusers demo_cfg) = [3, - 2]"
  using rating_is_dot_product [where lib = demo_lib and env = demo_env and cfg = demo_cfg and x = 5 and init = 0]
  by (simp add: demo_run edges_def demo_cfg_fields demo_dot)

text \<open>
  C3. The user ids of all writes of the run, in the order written and across all
  movies and both loops, form one chain that starts from the cursor value 0: each is
  the one before it advanced by 2654435761 modulo \<open>nusers\<close>, in \<^verbatim>\<open>size_t\<close>
  arithmetic and, since that addition does not wrap, as numbers.
\<close>

theorem single_cursor_chain:
  "cursor_chain (nusers cfg) 0 (map e_user (edges (main lib env cfg init))) \<and>
   (\<forall>k < length (edges (main lib env cfg init)).
      unat (e_user (edges (main lib env cfg init) ! k)) =
        (unat ((0 # map e_user (edges (main lib env cfg init))) ! k) + 2654435761)
          mod unat (nusers cfg))"
proof
  show "cursor_chain (nusers cfg) 0 (map e_user (edges (main lib env cfg init)))"
    using main_inv [of lib cfg env init] by (simp add: blocks_inv_def edges_def)
  show "\<forall>k < length (edges (main lib env cfg init)).
      unat (e_user (edges (main lib env cfg init) ! k)) =
        (unat ((0 # map e_user (edges (main lib env cfg init))) ! k) + 2654435761)
          mod unat (nusers cfg)"
    using main_cursor_prev [of _ lib env cfg init] by blast
qed

theorem single_cursor_chain_witness:
  "map e_user (edges (main demo_lib demo_env demo_cfg 0)) = [1, 2, 3, 4, 5, 6, 7] \<and>
   cursor_chain (nusers demo_cfg) 0 [1, 2, 3, 4, 5, 6, 7] \<and>
   4 < length (edges (main demo_lib demo_env demo_cfg 0)) \<and>
   unat (5 :: size_t) = (unat (4 :: size_t) + 2654435761) mod unat (nusers demo_cfg)"
proof -
  have u: "map e_user (edges (main demo_lib demo_env demo_cfg 0)) = [1, 2, 3, 4, 5, 6, 7]"
    by (simp add: demo_run edges_def)
  have l: "4 < length (edges (main demo_lib demo_env demo_cfg 0))"
    by (simp add: demo_run edges_def)
  note t = single_cursor_chain [where lib = demo_lib and env = demo_env and cfg = demo_cfg
      and init = 0]
  from t u have "cursor_chain (nusers demo_cfg) 0 [1, 2, 3, 4, 5, 6, 7]"
    by simp
  moreover from t l
  have "unat (e_user (edges (main demo_lib demo_env demo_cfg 0) ! 4)) =
      (unat ((0 # map e_user (edges (main demo_lib demo_env demo_cfg 0))) ! 4) + 2654435761)
        mod unat (nusers demo_cfg)"
    by blast
  then have "unat (5 :: size_t) = (unat (4 :: size_t) + 2654435761) mod unat (nusers demo_cfg)"
    unfolding u by (simp add: demo_run edges_def)
  ultimately show ?thesis using u l by simp
qed

text \<open>
  C4. For every write of the run, made in the \<open>i\<close>-th iteration of the loop over
  movies (counting from 0): the item id written is \<open>i + nusers\<close> as a number (the
  \<^verbatim>\<open>size_t\<close> addition does not wrap) and the user id is below \<open>nusers\<close>, so user
  ids and item ids occupy disjoint ranges.
\<close>

theorem item_and_user_ranges:
  assumes "i < length (blocks (main lib env cfg g0))"
    and "e \<in> set (b_edges (blocks (main lib env cfg g0) ! i))"
  shows "unat (b_movie (blocks (main lib env cfg g0) ! i)) = i \<and>
     unat (e_item e) = i + unat (nusers cfg) \<and> unat (e_user e) < unat (nusers cfg)"
proof -
  note b = main_index_bound [OF assms(1)]
  have i: "unat (of_nat i :: size_t) = i"
    using b(1,2) by (simp add: unat_of_nat_index)
  from main_edge_ok [OF assms]
  have item: "e_item e = of_nat i + nusers cfg" and user: "e_user e < nusers cfg"
    by (simp_all add: edge_ok_def)
  have "unat (of_nat i :: size_t) + unat (nusers cfg) < 2 ^ 64"
    using i b(1,2,3) by simp
  then have "unat (of_nat i + nusers cfg) = unat (of_nat i :: size_t) + unat (nusers cfg)"
    by (simp add: unat_add_lem [THEN iffD1])
  with item i have "unat (e_item e) = i + unat (nusers cfg)" by simp
  moreover have "b_movie (blocks (main lib env cfg g0) ! i) = of_nat i"
    using main_inv [of lib cfg env g0] assms(1) by (simp add: blocks_inv_def block_ok_def)
  ultimately show ?thesis
    using i user by (simp add: word_less_nat_alt)
qed

theorem item_and_user_ranges_witness:
  "1 < length (blocks (main demo_lib demo_env demo_cfg 0)) \<and>
   \<lparr>e_sink = Train, e_file = 0, e_user = 4, e_item = 11, e_rating = 0\<rparr>
     \<in> set (b_edges (blocks (main demo_lib demo_env demo_cfg 0) ! 1)) \<and>
   unat (b_movie (blocks (main demo_lib demo_env demo_cfg 0) ! 1)) = 1 \<and>
   unat (11 :: size_t) = 1 + unat (nusers demo_cfg) \<and> unat (4 :: size_t) < unat (nusers demo_cfg)"
  using item_and_user_ranges [of 1 demo_lib demo_env demo_cfg 0
      "\<lparr>e_sink = Train, e_file = 0, e_user = 4, e_item = 11, e_rating = 0\<rparr>"]
  by (simp add: demo_run)

text \<open>
  C5. Every write goes to the stream with index \<open>user_id mod nfiles\<close>, a valid index
  of the vectors of streams; and within the writes of one movie, the first
  \<open>out_degree\<close> (those of the training loop) go to the training streams and all
  later ones (those of the validation loop) to the validation streams.
\<close>

theorem shard_routing:
  assumes "i < length (blocks (main lib env cfg init))"
    and "j < length (b_edges (blocks (main lib env cfg init) ! i))"
  shows "e_file (b_edges (blocks (main lib env cfg init) ! i) ! j) =
       e_user (b_edges (blocks (main lib env cfg init) ! i) ! j) mod nfiles cfg \<and>
     e_file (b_edges (blocks (main lib env cfg init) ! i) ! j) < nfiles cfg \<and>
     e_sink (b_edges (blocks (main lib env cfg init) ! i) ! j) =
       (if j < unat (b_degree (blocks (main lib env cfg init) ! i)) then Train else Validation)"
proof -
  let ?b = "blocks (main lib env cfg init) ! i"
  have e: "edge_ok lib cfg (user_table (main lib env cfg init))
      (movie_table (main lib env cfg init)) (of_nat i) (b_edges ?b ! j)"
    using assms(1) nth_mem [OF assms(2)] by (rule main_edge_ok)
  have s: "e_sink (b_edges ?b ! j) = sink_at ?b j"
    using main_block_ok [OF assms(1)] assms(2) by (simp add: block_ok_def)
  from e have f: "e_file (b_edges ?b ! j) = e_user (b_edges ?b ! j) mod nfiles cfg"
    and v: "e_file (b_edges ?b ! j) < nfiles cfg"
    unfolding edge_ok_def by blast+
  from f v s show ?thesis
    unfolding sink_at_def by (intro conjI)
qed

theorem shard_routing_witness:
  "1 < length (blocks (main demo_lib demo_env demo_cfg 0)) \<and>
   2 < length (b_edges (blocks (main demo_lib demo_env demo_cfg 0) ! 1)) \<and>
   b_edges (blocks (main demo_lib demo_env demo_cfg 0) ! 1) ! 2 =
     \<lparr>e_sink = Validation, e_file = 1, e_user = 5, e_item = 11, e_rating = 0\<rparr> \<and>
   (1 :: size_t) = 5 mod nfiles demo_cfg \<and> (1 :: size_t) < nfiles demo_cfg \<and>
   \<not> 2 < unat (b_degree (blocks (main demo_lib demo_env demo_cfg 0) ! 1))"
  using shard_routing [where lib = demo_lib and env = demo_env and cfg = demo_cfg and init = 0
      and i = 1 and j = 2]
  by (simp add: demo_run demo_cfg_fields)

text \<open>
  C6. On every configuration with \<open>nusers\<close> above \<open>nvalidation\<close> and at least one
  shard, run in an environment that serves its requests (the directory call returns
  and the heap serves the vectors, the streams, the factors and \<^verbatim>\<open>prob\<close>): the run
  reaches the end of \<open>main\<close>, the loop over movies makes exactly \<open>nmovies\<close>
  iterations, the number of writes to training streams is the sum of the sampled
  out-degrees, and the number of writes to validation streams is \<open>nmovies\<close> times
  \<open>nvalidation\<close> (none when \<open>nvalidation\<close> is 0).
\<close>

theorem record_counts:
  assumes "setup_served env cfg" and "allocates env Prob"
    and "nvalidation cfg < nusers cfg" and "nfiles cfg \<noteq> 0"
  shows "status (main lib env cfg init) = None \<and>
     length (blocks (main lib env cfg init)) = unat (nmovies cfg) \<and>
     length (filter (\<lambda>e. e_sink e = Train) (edges (main lib env cfg init))) =
       sum_list (map (\<lambda>b. unat (b_degree b)) (blocks (main lib env cfg init))) \<and>
     length (filter (\<lambda>e. e_sink e = Validation) (edges (main lib env cfg init))) =
       unat (nmovies cfg) * unat (nvalidation cfg)"
proof -
  let ?bs = "blocks (main lib env cfg init)"
  have fin: "status (main lib env cfg init) = None"
    using assms by (rule main_finishes)
  have n: "length ?bs = unat (nmovies cfg)"
    using main_full [OF fin] by simp
  have "length (filter (\<lambda>e. e_sink e = Train) (edges (main lib env cfg init))) =
      sum_list (map (\<lambda>b. length (filter (\<lambda>e. e_sink e = Train) (b_edges b))) ?bs)"
    by (simp add: edges_def length_filter_concat)
  also have "\<dots> = sum_list (map (\<lambda>b. unat (b_degree b)) ?bs)"
    using main_blocks_count(1) [OF fin] by (simp cong: map_cong)
  finally have t: "length (filter (\<lambda>e. e_sink e = Train) (edges (main lib env cfg init))) =
      sum_list (map (\<lambda>b. unat (b_degree b)) ?bs)" .
  have "length (filter (\<lambda>e. e_sink e = Validation) (edges (main lib env cfg init))) =
      sum_list (map (\<lambda>b. length (filter (\<lambda>e. e_sink e = Validation) (b_edges b))) ?bs)"
    by (simp add: edges_def length_filter_concat)
  also have "\<dots> = length ?bs * unat (nvalidation cfg)"
    using main_blocks_count(2) [OF fin] by (intro sum_list_const) simp
  finally have "length (filter (\<lambda>e. e_sink e = Validation) (edges (main lib env cfg init))) =
      unat (nmovies cfg) * unat (nvalidation cfg)"
    using n by simp
  with fin n t show ?thesis by simp
qed

theorem record_counts_witness:
  "setup_served demo_env demo_cfg \<and> allocates demo_env Prob \<and>
   nvalidation demo_cfg < nusers demo_cfg \<and> nfiles demo_cfg \<noteq> 0 \<and>
   status (main demo_lib demo_env demo_cfg 0) = None \<and>
   length (blocks (main demo_lib demo_env demo_cfg 0)) = unat (nmovies demo_cfg) \<and>
   map (\<lambda>b. unat (b_degree b)) (blocks (main demo_lib demo_env demo_cfg 0)) = [1, 2, 1] \<and>
   length (filter (\<lambda>e. e_sink e = Train) (edges (main demo_lib demo_env demo_cfg 0))) = 4 \<and>
   length (filter (\<lambda>e. e_sink e = Validation) (edges (main demo_lib demo_env demo_cfg 0))) =
     unat (nmovies demo_cfg) * unat (nvalidation demo_cfg)"
proof -
  have h: "setup_served demo_env demo_cfg" "allocates demo_env Prob"
    "nvalidation demo_cfg < nusers demo_cfg" "nfiles demo_cfg \<noteq> 0"
    by (simp_all add: demo_served demo_env_fields demo_cfg_fields)
  have d: "map (\<lambda>b. unat (b_degree b)) (blocks (main demo_lib demo_env demo_cfg 0)) = [1, 2, 1]"
    by (simp add: demo_run)
  from record_counts [OF h, of demo_lib 0] d h show ?thesis
    by simp
qed

text \<open>
  C7. Every out-degree sampled by the run is at least 1 and at most
  \<open>nusers - nvalidation\<close>, which is the number of ranks of the cumulative
  distribution the degrees are sampled from: the degree is the index that the
  sampler located in that distribution, plus one.
\<close>

theorem degree_bounds:
  assumes "b \<in> set (blocks (main lib env cfg init))"
  shows "1 \<le> unat (b_degree b) \<and>
     unat (b_degree b) \<le> unat (nusers cfg) - unat (nvalidation cfg) \<and>
     length (degree_cdf lib cfg) = unat (nusers cfg) - unat (nvalidation cfg) \<and>
     (\<exists>g idx g'. multinomial_cdf lib (degree_cdf lib cfg) g = (idx, g') \<and>
        unat idx < length (degree_cdf lib cfg) \<and> b_degree b = idx + 1)"
proof -
  from assms obtain i where i: "i < length (blocks (main lib env cfg init))"
    and b: "blocks (main lib env cfg init) ! i = b"
    by (auto simp: in_set_conv_nth)
  have "nvalidation cfg \<le> nusers cfg"
    using main_index_bound(4) [OF i] by simp
  then have n: "unat (nusers cfg - nvalidation cfg) = unat (nusers cfg) - unat (nvalidation cfg)"
    by (rule unat_sub)
  from main_degrees_sampled [OF assms] obtain g idx g'
    where "multinomial_cdf lib (degree_cdf lib cfg) g = (idx, g')"
      and "idx < nusers cfg - nvalidation cfg" and "b_degree b = idx + 1"
    by blast
  then have "\<exists>g idx g'. multinomial_cdf lib (degree_cdf lib cfg) g = (idx, g') \<and>
      unat idx < length (degree_cdf lib cfg) \<and> b_degree b = idx + 1"
    by (auto simp: length_degree_cdf word_less_nat_alt)
  with main_block_ok [OF i] b n show ?thesis
    by (simp add: block_ok_def length_degree_cdf)
qed

theorem degree_bounds_witness:
  "\<lparr>b_movie = 1, b_degree = 2,
     b_edges =
       [\<lparr>e_sink = Train, e_file = 1, e_user = 3, e_item = 11, e_rating = - 1\<rparr>,
        \<lparr>e_sink = Train, e_file = 0, e_user = 4, e_item = 11, e_rating = 0\<rparr>,
        \<lparr>e_sink = Validation, e_file = 1, e_user = 5, e_item = 11, e_rating = 0\<rparr>]\<rparr>
     \<in> set (blocks (main demo_lib demo_env demo_cfg 0)) \<and>
   1 \<le> unat (2 :: size_t) \<and> unat (2 :: size_t) \<le> unat (nusers demo_cfg) - unat (nvalidation demo_cfg) \<and>
   length (degree_cdf demo_lib demo_cfg) = 9 \<and>
   (\<exists>g idx g'. multinomial_cdf demo_lib (degree_cdf demo_lib demo_cfg) g = (idx, g') \<and>
      unat idx < length (degree_cdf demo_lib demo_cfg) \<and> (2 :: size_t) = idx + 1)"
  using degree_bounds [where lib = demo_lib and env = demo_env and cfg = demo_cfg and init = 0
      and b = "\<lparr>b_movie = 1, b_degree = 2,
     b_edges =
       [\<lparr>e_sink = Train, e_file = 1, e_user = 3, e_item = 11, e_rating = - 1\<rparr>,
        \<lparr>e_sink = Train, e_file = 0, e_user = 4, e_item = 11, e_rating = 0\<rparr>,
        \<lparr>e_sink = Validation, e_file = 1, e_user = 5, e_item = 11, e_rating = 0\<rparr>]\<rparr>"]
  by (simp add: demo_run demo_cfg_fields)

text \<open>
  C8. Two runs on the same configuration, whose generators are in the same state
  after \<^verbatim>\<open>gen.seed(31413)\<close>, in environments with the same heap in which the same
  files can be opened and \<^verbatim>\<open>create_directory\<close> throws in both or in neither, create
  the same files and leave the same bytes in every shard, whatever state the
  generator's constructor left and whether or not the directory was created.
\<close>

theorem same_seed_same_files:
  assumes "gen_seed lib 31413 init = gen_seed lib 31413 init'"
    and "ofstream_good env = ofstream_good env'"
    and "allocates env = allocates env'"
    and "(create_directory env (output_folder cfg) = None) =
      (create_directory env' (output_folder cfg) = None)"
  shows "created (main lib env cfg init) = created (main lib env' cfg init') \<and>
     (\<forall>k i. shard_bytes lib env cfg (main lib env cfg init) k i =
        shard_bytes lib env' cfg (main lib env' cfg init') k i)"
proof -
  note g = main_generation [OF assms(1,3,4)]
  have "edges (main lib env cfg init) = edges (main lib env' cfg init')"
    using g(2) by (simp add: edges_def)
  then show ?thesis
    using assms(2) g(5) by (simp add: shard_bytes_def)
qed

theorem same_seed_same_files_witness:
  "gen_seed demo_lib 31413 0 = gen_seed demo_lib 31413 other_init \<and>
   ofstream_good demo_env = ofstream_good (demo_env\<lparr>create_directory := \<lambda>p. Some False\<rparr>) \<and>
   allocates demo_env = allocates (demo_env\<lparr>create_directory := \<lambda>p. Some False\<rparr>) \<and>
   create_directory demo_env (output_folder demo_cfg) = Some True \<and>
   create_directory (demo_env\<lparr>create_directory := \<lambda>p. Some False\<rparr>) (output_folder demo_cfg)
     = Some False \<and>
   created (main demo_lib (demo_env\<lparr>create_directory := \<lambda>p. Some False\<rparr>) demo_cfg other_init) =
     [''synthetic_data/graph_0.tsv'', ''synthetic_data/graph_0.tsv.validate'',
      ''synthetic_data/graph_1.tsv'', ''synthetic_data/graph_1.tsv.validate''] \<and>
   shard_bytes demo_lib (demo_env\<lparr>create_directory := \<lambda>p. Some False\<rparr>) demo_cfg
     (main demo_lib (demo_env\<lparr>create_directory := \<lambda>p. Some False\<rparr>) demo_cfg other_init) Train 0 =
     ''4'' @ [CHR 0x09] @ ''11'' @ [CHR 0x09] @ ''0'' @ [CHR 0x0A] @
     ''6'' @ [CHR 0x09] @ ''12'' @ [CHR 0x09] @ ''-11'' @ [CHR 0x0A]"
proof -
  let ?env' = "demo_env\<lparr>create_directory := \<lambda>p. Some False\<rparr>"
  have s: "gen_seed demo_lib 31413 0 = gen_seed demo_lib 31413 other_init"
    by (simp add: demo_seed)
  have g: "ofstream_good demo_env = ofstream_good ?env'"
    and a: "allocates demo_env = allocates ?env'"
    by simp_all
  have d: "create_directory demo_env (output_folder demo_cfg) = Some True"
    "create_directory ?env' (output_folder demo_cfg) = Some False"
    by (simp_all add: demo_env_fields)
  then have n: "(create_directory demo_env (output_folder demo_cfg) = None) =
      (create_directory ?env' (output_folder demo_cfg) = None)"
    by simp
  have b: "shard_bytes demo_lib demo_env demo_cfg (main demo_lib demo_env demo_cfg 0) Train 0 =
     ''4'' @ [CHR 0x09] @ ''11'' @ [CHR 0x09] @ ''0'' @ [CHR 0x0A] @
     ''6'' @ [CHR 0x09] @ ''12'' @ [CHR 0x09] @ ''-11'' @ [CHR 0x0A]"
    by (simp add: demo_run shard_bytes_def edges_def demo_env_fields format_edge_def demo_tostr show_size_t_def
        decimal.simps demo_show)
  note t = same_seed_same_files [OF s g a n]
  have "created (main demo_lib ?env' demo_cfg other_init) =
      created (main demo_lib demo_env demo_cfg 0)"
    using t by simp
  then have c: "created (main demo_lib ?env' demo_cfg other_init) =
     [''synthetic_data/graph_0.tsv'', ''synthetic_data/graph_0.tsv.validate'',
      ''synthetic_data/graph_1.tsv'', ''synthetic_data/graph_1.tsv.validate'']"
    by (simp add: demo_run)
  have "shard_bytes demo_lib ?env' demo_cfg (main demo_lib ?env' demo_cfg other_init) Train 0 =
    shard_bytes demo_lib demo_env demo_cfg (main demo_lib demo_env demo_cfg 0) Train 0"
    using t by simp
  with b c s g a d show ?thesis
    by (simp only: simp_thms)
qed

text \<open>
  C9. The code departs from the claim when the directory cannot be created. Line 78
  calls the overload of \<^verbatim>\<open>create_directory\<close> that throws, and nothing catches the
  exception: the run ends there, with nothing logged, no file opened and no write
  made. The branch of lines 79 to 81, which logs \<^verbatim>\<open>Error creating directory\<close> and goes
  on, is reached only when the directory exists already. (A directory that exists
  already and a shard file that cannot be opened are logged and do not end the run:
  lemmas \<open>main_logged\<close> and \<open>main_generation\<close>.)
\<close>

theorem directory_failure_ends_run:
  assumes "create_directory env (output_folder cfg) = None"
  shows "main lib env cfg init =
     \<lparr>status = Some FilesystemError, logged = [], created = [], user_table = [],
      movie_table = [], blocks = []\<rparr>"
  using assms by (simp add: main_def stopped_def)

theorem directory_failure_ends_run_witness:
  "create_directory no_directory_env (output_folder demo_cfg) = None \<and>
   status (main demo_lib no_directory_env demo_cfg 0) = Some FilesystemError \<and>
   logged (main demo_lib no_directory_env demo_cfg 0) = [] \<and>
   created (main demo_lib no_directory_env demo_cfg 0) = [] \<and>
   edges (main demo_lib no_directory_env demo_cfg 0) = []"
  using directory_failure_ends_run [where lib = demo_lib and env = no_directory_env
      and cfg = demo_cfg and init = 0]
  by (simp add: no_directory_env_def edges_def)

text \<open>
  C10. The user id of the \<open>k\<close>-th write of the run (counting training and validation
  writes together, from 1) is \<open>k * 2654435761 mod nusers\<close> as a number, whatever the
  factors are; so every user id written is a multiple of \<open>gcd 2654435761 nusers\<close>
  (and when that exceeds 1, some user ids are never written: lemma
  \<open>user_one_never_rated\<close>).
\<close>

theorem user_id_closed_form:
  assumes "k < length (edges (main lib env cfg init))"
  shows "unat (e_user (edges (main lib env cfg init) ! k)) =
       (Suc k * 2654435761) mod unat (nusers cfg) \<and>
     gcd 2654435761 (unat (nusers cfg)) dvd unat (e_user (edges (main lib env cfg init) ! k))"
proof -
  have eq: "unat (e_user (edges (main lib env cfg init) ! k)) =
      (Suc k * 2654435761) mod unat (nusers cfg)"
    using assms by (rule main_user_id)
  have "gcd 2654435761 (unat (nusers cfg)) dvd Suc k * 2654435761"
    by simp
  then have "gcd 2654435761 (unat (nusers cfg)) dvd (Suc k * 2654435761) mod unat (nusers cfg)"
    by (rule dvd_mod) simp
  with eq show ?thesis by simp
qed

theorem user_id_closed_form_witness:
  "4 < length (edges (main demo_lib demo_env demo_cfg 0)) \<and>
   e_user (edges (main demo_lib demo_env demo_cfg 0) ! 4) = 5 \<and>
   unat (5 :: size_t) = (Suc 4 * 2654435761) mod unat (nusers demo_cfg) \<and>
   gcd 2654435761 (unat (nusers demo_cfg)) dvd unat (5 :: size_t)"
  using user_id_closed_form [where lib = demo_lib and env = demo_env and cfg = demo_cfg
      and init = 0 and k = 4]
  by (simp add: demo_run demo_cfg_fields edges_def)

end
